theory Spec2Isabelle
  imports Main
begin

section \<open>JavaScript strings and values\<close>

text \<open>
  A JavaScript string is a sequence of 16-bit code units. A code unit is a natural number
  here (those of the platform are below 65536; no operation of the client computes with
  them); \<open>U c\<close> is the code unit of the character \<open>c\<close>, and \<open>ascii\<close> gives the
  code units of a string literal of the source.
\<close>

type_synonym code_unit = nat

type_synonym jstring = "code_unit list"

definition U :: "char \<Rightarrow> code_unit" where
  "U c = of_char c"

definition ascii :: "string \<Rightarrow> jstring" where
  "ascii s = map U s"

text \<open>
  The client in \<^verbatim>\<open>api.js\<close> moves three kinds of data around: strings kept in
  \<^verbatim>\<open>localStorage\<close>, values decoded from JSON texts, and the \<^verbatim>\<open>undefined\<close> that a
  missing property reads as. One datatype holds them all.

  A number is kept as the literal text that denotes it: \<open>JNum (ascii ''12'')\<close> is the
  number 12. Whether a literal denotes zero is computed exactly (\<open>zero_literal\<close>); the
  decimal text that the platform prints for a number is not, so a number is written back
  as it was read, and two literals of one number are two values here. No statement below
  depends on how a number is written. An object is the list of its own properties in the
  order in which they were defined (the platform lists properties whose names are array
  indices first; no statement below depends on the order).
\<close>

datatype jsval =
    JUndefined
  | JNull
  | JBool bool
  | JNum jstring
  | JStr jstring
  | JArr "jsval list"
  | JObj "(jstring \<times> jsval) list"

text \<open>The errors the client can throw or pass on.\<close>

datatype js_error =
    Error jstring        \<comment> \<open>\<^verbatim>\<open>new Error(message)\<close>\<close>
  | SyntaxError          \<comment> \<open>thrown by \<^verbatim>\<open>JSON.parse\<close> and \<^verbatim>\<open>response.json()\<close>\<close>
  | TypeError            \<comment> \<open>reading a property of \<^verbatim>\<open>null\<close> or \<^verbatim>\<open>undefined\<close>\<close>
  | TransportError jstring  \<comment> \<open>the rejection of \<^verbatim>\<open>fetch\<close>, with the transport's message\<close>

subsection \<open>Number literals that denote zero\<close>

text \<open>
  A number literal is an optional minus sign, an integer part, an optional fraction and an
  optional exponent. With \<open>M\<close> the number written by the digits of the integer part and
  of the fraction together, and \<open>E\<close> the exponent less the number of fraction digits, the
  literal denotes \<open>M * 10 ^ E\<close>. The platform rounds it to the nearest double, ties to
  the even one: it is zero (and falsy) exactly when \<open>M * 10 ^ E\<close> is at most
  \<open>2 ^ - 1075\<close>, half the least positive double.
\<close>

definition is_digit :: "code_unit \<Rightarrow> bool" where
  "is_digit c = (48 \<le> c \<and> c \<le> 57)"

definition digits_value :: "jstring \<Rightarrow> nat" where
  "digits_value ds = foldl (\<lambda>n d. 10 * n + (d - 48)) 0 ds"

definition unsigned_part :: "jstring \<Rightarrow> jstring" where
  "unsigned_part lit = (case lit of [] \<Rightarrow> [] | c # cs \<Rightarrow> if c = U CHR ''-'' then cs else lit)"

definition fraction_digits :: "jstring \<Rightarrow> jstring" where
  "fraction_digits r =
     (case r of [] \<Rightarrow> [] | c # cs \<Rightarrow> if c = U CHR ''.'' then takeWhile is_digit cs else [])"

definition after_fraction :: "jstring \<Rightarrow> jstring" where
  "after_fraction r =
     (case r of [] \<Rightarrow> [] | c # cs \<Rightarrow> if c = U CHR ''.'' then dropWhile is_digit cs else r)"

definition exponent_value :: "jstring \<Rightarrow> int" where
  "exponent_value r =
     (case r of
        [] \<Rightarrow> 0
      | c # cs \<Rightarrow>
          if c = U CHR ''e'' \<or> c = U CHR ''E'' then
            (case cs of
               [] \<Rightarrow> 0
             | s # ds \<Rightarrow>
                 if s = U CHR ''-'' then - int (digits_value ds)
                 else if s = U CHR ''+'' then int (digits_value ds)
                 else int (digits_value cs))
          else 0)"

definition zero_literal :: "jstring \<Rightarrow> bool" where
  "zero_literal lit =
     (let b = unsigned_part lit;
          ip = takeWhile is_digit b;
          fp = fraction_digits (dropWhile is_digit b);
          M = digits_value (ip @ fp);
          E = exponent_value (after_fraction (dropWhile is_digit b)) - int (length fp)
      in if 0 \<le> E then M = 0 else M * 2 ^ 1075 \<le> 10 ^ nat (- E))"

subsection \<open>Truthiness, property access, conversion to string\<close>

fun truthy :: "jsval \<Rightarrow> bool" where
  "truthy JUndefined = False"
| "truthy JNull = False"
| "truthy (JBool b) = b"
| "truthy (JNum lit) = (\<not> zero_literal lit)"
| "truthy (JStr s) = (s \<noteq> [])"
| "truthy (JArr _) = True"
| "truthy (JObj _) = True"

text \<open>
  \<^verbatim>\<open>localStorage.getItem\<close> yields a string or \<^verbatim>\<open>null\<close>; \<open>None\<close> is the \<^verbatim>\<open>null\<close>.
  The test \<^verbatim>\<open>if (x)\<close> on such a value fails for \<^verbatim>\<open>null\<close> and for the empty string.
\<close>

fun truthy_item :: "jstring option \<Rightarrow> bool" where
  "truthy_item None = False"
| "truthy_item (Some s) = (s \<noteq> [])"

text \<open>
  \<open>get_prop v k\<close> is \<^verbatim>\<open>v.k\<close>, which throws on \<^verbatim>\<open>null\<close> and \<^verbatim>\<open>undefined\<close>;
  \<open>opt_prop v k\<close> is \<^verbatim>\<open>v?.k\<close>. Both are applied only to the keys \<^verbatim>\<open>detail\<close>,
  \<^verbatim>\<open>access_token\<close>, \<^verbatim>\<open>user_id\<close> and \<^verbatim>\<open>role\<close>, which no prototype defines, so a
  primitive or an array reads as \<^verbatim>\<open>undefined\<close> there.
\<close>

fun own_prop :: "jsval \<Rightarrow> jstring \<Rightarrow> jsval" where
  "own_prop (JObj kvs) k = (case map_of kvs k of None \<Rightarrow> JUndefined | Some v \<Rightarrow> v)"
| "own_prop _ k = JUndefined"

fun get_prop :: "jsval \<Rightarrow> jstring \<Rightarrow> js_error + jsval" where
  "get_prop JUndefined k = Inl TypeError"
| "get_prop JNull k = Inl TypeError"
| "get_prop v k = Inr (own_prop v k)"

fun opt_prop :: "jsval \<Rightarrow> jstring \<Rightarrow> jsval" where
  "opt_prop JUndefined k = JUndefined"
| "opt_prop JNull k = JUndefined"
| "opt_prop v k = own_prop v k"

fun join_comma :: "jstring list \<Rightarrow> jstring" where
  "join_comma [] = []"
| "join_comma [x] = x"
| "join_comma (x # y # zs) = x @ U CHR '','' # join_comma (y # zs)"

text \<open>
  \<open>to_string\<close> is the conversion \<^verbatim>\<open>String(v)\<close> that \<^verbatim>\<open>localStorage.setItem\<close> and
  \<^verbatim>\<open>new Error\<close> apply to their argument. An array joins the conversions of its
  elements, with \<^verbatim>\<open>null\<close> and \<^verbatim>\<open>undefined\<close> elements as empty strings.
\<close>

fun to_string :: "jsval \<Rightarrow> jstring"
  and elems_to_string :: "jsval list \<Rightarrow> jstring list" where
  "to_string JUndefined = ascii ''undefined''"
| "to_string JNull = ascii ''null''"
| "to_string (JBool b) = (if b then ascii ''true'' else ascii ''false'')"
| "to_string (JNum lit) = lit"
| "to_string (JStr s) = s"
| "to_string (JArr vs) = join_comma (elems_to_string vs)"
| "to_string (JObj kvs) = ascii ''[object Object]''"
| "elems_to_string [] = []"
| "elems_to_string (v # vs) =
     (if v = JUndefined \<or> v = JNull then [] else to_string v) # elems_to_string vs"

section \<open>JSON\<close>

subsection \<open>\<^verbatim>\<open>JSON.stringify\<close>\<close>

text \<open>
  A string is written between double quotes. The quote, the backslash and the control
  characters are escaped; so is a surrogate code unit that is not half of a pair (a high
  surrogate followed by a low one), as four lower-case hexadecimal digits. Every other
  code unit is written as it is.
\<close>

definition hex_digit :: "nat \<Rightarrow> code_unit" where
  "hex_digit n = (if n < 10 then 48 + n else 87 + n)"

definition unicode_escape :: "code_unit \<Rightarrow> jstring" where
  "unicode_escape c =
     [U CHR 0x5C, U CHR ''u'', hex_digit (c div 4096), hex_digit (c div 256 mod 16),
      hex_digit (c div 16 mod 16), hex_digit (c mod 16)]"

definition is_high_surrogate :: "code_unit \<Rightarrow> bool" where
  "is_high_surrogate c = (0xD800 \<le> c \<and> c \<le> 0xDBFF)"

definition is_low_surrogate :: "code_unit \<Rightarrow> bool" where
  "is_low_surrogate c = (0xDC00 \<le> c \<and> c \<le> 0xDFFF)"

definition escape_char :: "code_unit \<Rightarrow> jstring" where
  "escape_char c =
     (if c = U CHR 0x22 then [U CHR 0x5C, U CHR 0x22]
      else if c = U CHR 0x5C then [U CHR 0x5C, U CHR 0x5C]
      else if c = U CHR 0x08 then [U CHR 0x5C, U CHR ''b'']
      else if c = U CHR 0x0C then [U CHR 0x5C, U CHR ''f'']
      else if c = U CHR 0x0A then [U CHR 0x5C, U CHR ''n'']
      else if c = U CHR 0x0D then [U CHR 0x5C, U CHR ''r'']
      else if c = U CHR 0x09 then [U CHR 0x5C, U CHR ''t'']
      else if c < 32 \<or> is_high_surrogate c \<or> is_low_surrogate c then unicode_escape c
      else [c])"

fun escape_units :: "jstring \<Rightarrow> jstring" where
  "escape_units [] = []"
| "escape_units [c] = escape_char c"
| "escape_units (c # d # cs) =
     (if is_high_surrogate c \<and> is_low_surrogate d then c # d # escape_units cs
      else escape_char c @ escape_units (d # cs))"

definition quote :: "jstring \<Rightarrow> jstring" where
  "quote s = U CHR 0x22 # escape_units s @ [U CHR 0x22]"

text \<open>
  \<open>None\<close> is the \<^verbatim>\<open>undefined\<close> that \<^verbatim>\<open>JSON.stringify(undefined)\<close> returns. Inside an
  array \<^verbatim>\<open>undefined\<close> is written \<^verbatim>\<open>null\<close>; inside an object its property is left out.
\<close>

fun JSON_stringify :: "jsval \<Rightarrow> jstring option"
  and stringify_elems :: "jsval list \<Rightarrow> jstring list"
  and stringify_members :: "(jstring \<times> jsval) list \<Rightarrow> jstring list" where
  "JSON_stringify JUndefined = None"
| "JSON_stringify JNull = Some (ascii ''null'')"
| "JSON_stringify (JBool b) = Some (if b then ascii ''true'' else ascii ''false'')"
| "JSON_stringify (JNum lit) = Some lit"
| "JSON_stringify (JStr s) = Some (quote s)"
| "JSON_stringify (JArr vs) =
     Some (U CHR ''['' # join_comma (stringify_elems vs) @ [U CHR '']''])"
| "JSON_stringify (JObj kvs) =
     Some (U CHR ''{'' # join_comma (stringify_members kvs) @ [U CHR ''}''])"
| "stringify_elems [] = []"
| "stringify_elems (v # vs) =
     (case JSON_stringify v of None \<Rightarrow> ascii ''null'' | Some s \<Rightarrow> s) # stringify_elems vs"
| "stringify_members [] = []"
| "stringify_members ((k, v) # kvs) =
     (case JSON_stringify v of
        None \<Rightarrow> stringify_members kvs
      | Some s \<Rightarrow> (quote k @ U CHR '':'' # s) # stringify_members kvs)"

subsection \<open>\<^verbatim>\<open>JSON.parse\<close>\<close>

text \<open>
  A recursive-descent reader of the JSON grammar (ECMA-404), which is what
  \<^verbatim>\<open>JSON.parse\<close> and \<^verbatim>\<open>response.json()\<close> accept (the latter on the decoded text of
  the body). Every reader returns the value read and the rest of the text, or \<open>None\<close>
  where the platform throws \<^verbatim>\<open>SyntaxError\<close>.
\<close>

definition is_ws :: "code_unit \<Rightarrow> bool" where
  "is_ws c = (c = U CHR '' '' \<or> c = U CHR 0x09 \<or> c = U CHR 0x0A \<or> c = U CHR 0x0D)"

definition skip_ws :: "jstring \<Rightarrow> jstring" where
  "skip_ws s = dropWhile is_ws s"

definition hex_val :: "code_unit \<Rightarrow> nat option" where
  "hex_val c =
     (if 48 \<le> c \<and> c \<le> 57 then Some (c - 48)
      else if 97 \<le> c \<and> c \<le> 102 then Some (c - 87)
      else if 65 \<le> c \<and> c \<le> 70 then Some (c - 55)
      else None)"

definition hex4 :: "code_unit \<Rightarrow> code_unit \<Rightarrow> code_unit \<Rightarrow> code_unit \<Rightarrow> nat option" where
  "hex4 a b c d =
     (case (hex_val a, hex_val b, hex_val c, hex_val d) of
        (Some p, Some q, Some r, Some s) \<Rightarrow> Some (((p * 16 + q) * 16 + r) * 16 + s)
      | _ \<Rightarrow> None)"

definition unescape :: "code_unit \<Rightarrow> code_unit option" where
  "unescape e =
     (if e = U CHR 0x22 then Some (U CHR 0x22)
      else if e = U CHR 0x5C then Some (U CHR 0x5C)
      else if e = U CHR ''/'' then Some (U CHR ''/'')
      else if e = U CHR ''b'' then Some (U CHR 0x08)
      else if e = U CHR ''f'' then Some (U CHR 0x0C)
      else if e = U CHR ''n'' then Some (U CHR 0x0A)
      else if e = U CHR ''r'' then Some (U CHR 0x0D)
      else if e = U CHR ''t'' then Some (U CHR 0x09)
      else None)"

definition cons_char ::
  "code_unit \<Rightarrow> (jstring \<times> jstring) option \<Rightarrow> (jstring \<times> jstring) option" where
  "cons_char c r = (case r of None \<Rightarrow> None | Some (s, rest) \<Rightarrow> Some (c # s, rest))"

text \<open>
  The characters of a string literal, after its opening quote, up to its closing quote.
  An escape \<^verbatim>\<open>\uXXXX\<close> denotes the code unit with that number, a surrogate included.
\<close>

fun parse_chars :: "jstring \<Rightarrow> (jstring \<times> jstring) option" where
  "parse_chars [] = None"
| "parse_chars (c # cs) =
     (if c = U CHR 0x22 then Some ([], cs)
      else if c = U CHR 0x5C then
        (case cs of
           [] \<Rightarrow> None
         | e # cs' \<Rightarrow>
             if e = U CHR ''u'' then
               (case cs' of
                  h1 # h2 # h3 # h4 # cs'' \<Rightarrow>
                    (case hex4 h1 h2 h3 h4 of
                       None \<Rightarrow> None
                     | Some n \<Rightarrow> cons_char n (parse_chars cs''))
                | _ \<Rightarrow> None)
             else
               (case unescape e of
                  None \<Rightarrow> None
                | Some d \<Rightarrow> cons_char d (parse_chars cs')))
      else if c < 32 then None
      else cons_char c (parse_chars cs))"

text \<open>
  A number literal: an optional minus sign, an integer part without a leading zero, an
  optional fraction, an optional exponent. The literal read is returned as it stands.
\<close>

definition digits1 :: "jstring \<Rightarrow> (jstring \<times> jstring) option" where
  "digits1 s = (if takeWhile is_digit s = [] then None
                else Some (takeWhile is_digit s, dropWhile is_digit s))"

definition parse_int_part :: "jstring \<Rightarrow> (jstring \<times> jstring) option" where
  "parse_int_part s =
     (case s of
        [] \<Rightarrow> None
      | c # cs \<Rightarrow> if c = U CHR ''0'' then Some ([c], cs) else digits1 s)"

definition parse_frac :: "jstring \<Rightarrow> (jstring \<times> jstring) option" where
  "parse_frac s =
     (case s of
        c # cs \<Rightarrow>
          if c = U CHR ''.'' then
            (case digits1 cs of None \<Rightarrow> None | Some (ds, r) \<Rightarrow> Some (c # ds, r))
          else Some ([], s)
      | [] \<Rightarrow> Some ([], s))"

definition parse_sign :: "jstring \<Rightarrow> jstring \<times> jstring" where
  "parse_sign s =
     (case s of
        c # cs \<Rightarrow> if c = U CHR ''+'' \<or> c = U CHR ''-'' then ([c], cs) else ([], s)
      | [] \<Rightarrow> ([], s))"

definition parse_exp :: "jstring \<Rightarrow> (jstring \<times> jstring) option" where
  "parse_exp s =
     (case s of
        c # cs \<Rightarrow>
          if c = U CHR ''e'' \<or> c = U CHR ''E'' then
            (case digits1 (snd (parse_sign cs)) of
               None \<Rightarrow> None
             | Some (ds, r) \<Rightarrow> Some (c # fst (parse_sign cs) @ ds, r))
          else Some ([], s)
      | [] \<Rightarrow> Some ([], s))"

definition parse_number :: "jstring \<Rightarrow> (jstring \<times> jstring) option" where
  "parse_number s =
     (let (neg, s0) = (case s of c # cs \<Rightarrow> if c = U CHR ''-'' then ([c], cs) else ([], s)
                               | [] \<Rightarrow> ([], s))
      in case parse_int_part s0 of
           None \<Rightarrow> None
         | Some (ip, s1) \<Rightarrow>
             (case parse_frac s1 of
                None \<Rightarrow> None
              | Some (fp, s2) \<Rightarrow>
                  (case parse_exp s2 of
                     None \<Rightarrow> None
                   | Some (ep, s3) \<Rightarrow> Some (neg @ ip @ fp @ ep, s3))))"

definition parse_word :: "jstring \<Rightarrow> jsval \<Rightarrow> jstring \<Rightarrow> (jsval \<times> jstring) option" where
  "parse_word w v s = (if take (length w) s = w then Some (v, drop (length w) s) else None)"

text \<open>
  \<open>obj_put\<close> defines a property while an object literal is read: a name read twice keeps
  its first position and takes the later value.
\<close>

fun obj_put :: "jstring \<Rightarrow> jsval \<Rightarrow> (jstring \<times> jsval) list \<Rightarrow> (jstring \<times> jsval) list" where
  "obj_put k v [] = [(k, v)]"
| "obj_put k v (p # ps) = (if fst p = k then (k, v) # ps else p # obj_put k v ps)"

text \<open>
  The readers of values, of the elements of an array after its opening bracket, and of the
  members of an object after its opening brace. The first argument bounds the depth of
  calls; every second call at the latest consumes a character, so twice the length of the
  text is enough (lemma \<open>JSON_parse_any_fuel\<close> below: no reading fails for the bound
  that \<open>JSON_parse\<close> passes).
\<close>

fun parse_value :: "nat \<Rightarrow> jstring \<Rightarrow> (jsval \<times> jstring) option"
  and parse_elems :: "nat \<Rightarrow> jsval list \<Rightarrow> jstring \<Rightarrow> (jsval \<times> jstring) option"
  and parse_members ::
    "nat \<Rightarrow> (jstring \<times> jsval) list \<Rightarrow> jstring \<Rightarrow> (jsval \<times> jstring) option"
  where
  "parse_value 0 s = None"
| "parse_value (Suc n) s =
     (case skip_ws s of
        [] \<Rightarrow> None
      | c # cs \<Rightarrow>
          if c = U CHR ''{'' then
            (case skip_ws cs of
               [] \<Rightarrow> None
             | d # ds \<Rightarrow> if d = U CHR ''}'' then Some (JObj [], ds) else parse_members n [] cs)
          else if c = U CHR ''['' then
            (case skip_ws cs of
               [] \<Rightarrow> None
             | d # ds \<Rightarrow> if d = U CHR '']'' then Some (JArr [], ds) else parse_elems n [] cs)
          else if c = U CHR 0x22 then
            (case parse_chars cs of None \<Rightarrow> None | Some (str, r) \<Rightarrow> Some (JStr str, r))
          else if c = U CHR ''t'' then parse_word (ascii ''true'') (JBool True) (c # cs)
          else if c = U CHR ''f'' then parse_word (ascii ''false'') (JBool False) (c # cs)
          else if c = U CHR ''n'' then parse_word (ascii ''null'') JNull (c # cs)
          else
            (case parse_number (c # cs) of None \<Rightarrow> None | Some (lit, r) \<Rightarrow> Some (JNum lit, r)))"
| "parse_elems 0 acc s = None"
| "parse_elems (Suc n) acc s =
     (case parse_value n s of
        None \<Rightarrow> None
      | Some (v, r) \<Rightarrow>
          (case skip_ws r of
             [] \<Rightarrow> None
           | d # ds \<Rightarrow>
               if d = U CHR '','' then parse_elems n (acc @ [v]) ds
               else if d = U CHR '']'' then Some (JArr (acc @ [v]), ds)
               else None))"
| "parse_members 0 acc s = None"
| "parse_members (Suc n) acc s =
     (case skip_ws s of
        [] \<Rightarrow> None
      | q # cs \<Rightarrow>
          if q \<noteq> U CHR 0x22 then None
          else
            (case parse_chars cs of
               None \<Rightarrow> None
             | Some (k, r) \<Rightarrow>
                 (case skip_ws r of
                    [] \<Rightarrow> None
                  | c # r' \<Rightarrow>
                      if c \<noteq> U CHR '':'' then None
                      else
                        (case parse_value n r' of
                           None \<Rightarrow> None
                         | Some (v, r'') \<Rightarrow>
                             (case skip_ws r'' of
                                [] \<Rightarrow> None
                              | d # ds \<Rightarrow>
                                  if d = U CHR '','' then parse_members n (obj_put k v acc) ds
                                  else if d = U CHR ''}'' then Some (JObj (obj_put k v acc), ds)
                                  else None)))))"

text \<open>The whole text must be one value, with white space around it at most.\<close>

definition JSON_parse :: "jstring \<Rightarrow> jsval option" where
  "JSON_parse s =
     (case parse_value (2 * length s + 2) s of
        None \<Rightarrow> None
      | Some (v, r) \<Rightarrow> if skip_ws r = [] then Some v else None)"

section \<open>The browser state\<close>

text \<open>
  What the client reads and writes outside its own variables: the key-value store
  \<^verbatim>\<open>localStorage\<close>, the assignments made to \<^verbatim>\<open>window.location.href\<close> (each one a
  navigation, the latest last) and the errors written with \<^verbatim>\<open>console.error\<close>.
\<close>

record world =
  localStorage :: "jstring \<rightharpoonup> jstring"
  navigations :: "jstring list"
  console_errors :: "js_error list"

definition getItem :: "jstring \<Rightarrow> world \<Rightarrow> jstring option" where
  "getItem k w = localStorage w k"

definition setItem :: "jstring \<Rightarrow> jstring \<Rightarrow> world \<Rightarrow> world" where
  "setItem k v w = w\<lparr>localStorage := (localStorage w)(k \<mapsto> v)\<rparr>"

definition removeItem :: "jstring \<Rightarrow> world \<Rightarrow> world" where
  "removeItem k w = w\<lparr>localStorage := (localStorage w)(k := None)\<rparr>"

definition navigate :: "jstring \<Rightarrow> world \<Rightarrow> world" where
  "navigate url w = w\<lparr>navigations := navigations w @ [url]\<rparr>"

section \<open>\<^verbatim>\<open>TokenManager\<close>: the session store\<close>

text \<open>
  \<^verbatim>\<open>setItem\<close> stores the string conversion of its argument, and \<^verbatim>\<open>setUserData\<close>
  hands it the result of \<^verbatim>\<open>JSON.stringify\<close>, which is \<^verbatim>\<open>undefined\<close> for an argument
  that has no JSON text.
\<close>

definition getToken :: "world \<Rightarrow> jstring option" where
  "getToken w = getItem (ascii ''bossup_token'') w"

definition setToken :: "jsval \<Rightarrow> world \<Rightarrow> world" where
  "setToken token w = setItem (ascii ''bossup_token'') (to_string token) w"

definition removeToken :: "world \<Rightarrow> world" where
  "removeToken w = removeItem (ascii ''bossup_token'') w"

definition getUserData :: "world \<Rightarrow> js_error + jsval" where
  "getUserData w =
     (case getItem (ascii ''bossup_user'') w of
        None \<Rightarrow> Inr JNull
      | Some data \<Rightarrow>
          if data = [] then Inr JNull
          else (case JSON_parse data of None \<Rightarrow> Inl SyntaxError | Some v \<Rightarrow> Inr v))"

definition setUserData :: "jsval \<Rightarrow> world \<Rightarrow> world" where
  "setUserData data w =
     setItem (ascii ''bossup_user'')
       (case JSON_stringify data of None \<Rightarrow> ascii ''undefined'' | Some blob \<Rightarrow> blob) w"

definition clearAll :: "world \<Rightarrow> world" where
  "clearAll w = removeItem (ascii ''bossup_user'') (removeItem (ascii ''bossup_token'') w)"

definition isAuthenticated :: "world \<Rightarrow> bool" where
  "isAuthenticated w = truthy_item (getToken w)"

text \<open>A run of writes to the store, as a caller may issue them.\<close>

datatype store_op = SetToken jsval | SetUserData jsval

fun apply_op :: "world \<Rightarrow> store_op \<Rightarrow> world" where
  "apply_op w (SetToken t) = setToken t w"
| "apply_op w (SetUserData d) = setUserData d w"

definition run_ops :: "store_op list \<Rightarrow> world \<Rightarrow> world" where
  "run_ops ops w = foldl apply_op w ops"

text \<open>The identity that \<^verbatim>\<open>login\<close> and \<^verbatim>\<open>signup\<close> cache: \<^verbatim>\<open>{user_id: u, role: r}\<close>.\<close>

definition identity :: "jsval \<Rightarrow> jsval \<Rightarrow> jsval" where
  "identity u r = JObj [(ascii ''user_id'', u), (ascii ''role'', r)]"

section \<open>\<^verbatim>\<open>API\<close>: the gateway client\<close>

definition API_BASE_URL :: jstring where
  "API_BASE_URL = ascii ''http://localhost:8000''"

text \<open>
  The options of a request, as the callers in this repository pass them: a method
  (\<open>http_method\<close>), a body and extra headers, each of them optional; any further option
  is a further field of the record and is passed on unchanged. \<^verbatim>\<open>fetch\<close> is the
  network: it answers a URL and the options it is called with by a response (status and
  body text) or by a rejection.
\<close>

record request_options =
  http_method :: "jstring option"
  body :: "jstring option"
  headers :: "(jstring \<rightharpoonup> jstring) option"

datatype fetch_result = Rejected jstring | Response nat jstring

type_synonym fetch = "jstring \<Rightarrow> request_options \<Rightarrow> fetch_result"

definition no_options :: request_options where
  "no_options = \<lparr>http_method = None, body = None, headers = None\<rparr>"

text \<open>
  The headers object built by \<^verbatim>\<open>request\<close>: the JSON content type first, the caller's
  headers spread over it, then the bearer token when \<^verbatim>\<open>if (token)\<close> passes.
\<close>

definition request_headers :: "request_options \<Rightarrow> world \<Rightarrow> (jstring \<rightharpoonup> jstring)" where
  "request_headers options w =
     (let hs = [ascii ''Content-Type'' \<mapsto> ascii ''application/json'']
                 ++ (case headers options of None \<Rightarrow> Map.empty | Some h \<Rightarrow> h)
      in case getToken w of
           None \<Rightarrow> hs
         | Some token \<Rightarrow>
             if token = [] then hs
             else hs(ascii ''Authorization'' \<mapsto> ascii ''Bearer '' @ token))"

definition fetch_url :: "jstring \<Rightarrow> jstring" where
  "fetch_url endpoint = API_BASE_URL @ endpoint"

definition fetch_init :: "request_options \<Rightarrow> world \<Rightarrow> request_options" where
  "fetch_init options w = options\<lparr>headers := Some (request_headers options w)\<rparr>"

definition response_ok :: "nat \<Rightarrow> bool" where
  "response_ok status = (200 \<le> status \<and> status \<le> 299)"

text \<open>The handler \<^verbatim>\<open>catch (error) { console.error(..., error); throw error; }\<close>.\<close>

definition log_and_throw :: "js_error \<Rightarrow> world \<Rightarrow> (js_error + jsval) \<times> world" where
  "log_and_throw e w = (Inl e, w\<lparr>console_errors := console_errors w @ [e]\<rparr>)"

definition request ::
  "fetch \<Rightarrow> jstring \<Rightarrow> request_options \<Rightarrow> world \<Rightarrow> (js_error + jsval) \<times> world" where
  "request net endpoint options w =
     (case net (fetch_url endpoint) (fetch_init options w) of
        Rejected msg \<Rightarrow> log_and_throw (TransportError msg) w
      | Response status blob \<Rightarrow>
          if status = 401 then (Inr JNull, navigate (ascii ''/login.html'') (clearAll w))
          else
            (case JSON_parse blob of
               None \<Rightarrow> log_and_throw SyntaxError w
             | Some data \<Rightarrow>
                 if \<not> response_ok status then
                   (case get_prop data (ascii ''detail'') of
                      Inl e \<Rightarrow> log_and_throw e w
                    | Inr detail \<Rightarrow>
                        log_and_throw
                          (Error (to_string (if truthy detail then detail
                                             else JStr (ascii ''Request failed'')))) w)
                 else (Inr data, w)))"

text \<open>
  \<^verbatim>\<open>signup\<close> and \<^verbatim>\<open>login\<close>: when the response of \<^verbatim>\<open>request\<close> is truthy, store its
  \<^verbatim>\<open>access_token\<close> and the identity made of its \<^verbatim>\<open>user_id\<close> and \<^verbatim>\<open>role\<close>; return
  the response in any case. The parameter \<^verbatim>\<open>fullName = null\<close> of \<^verbatim>\<open>signup\<close> takes its
  default when the argument is left out or is \<^verbatim>\<open>undefined\<close>.
\<close>

definition signup ::
  "fetch \<Rightarrow> jstring \<Rightarrow> jstring \<Rightarrow> jstring \<Rightarrow> jstring \<Rightarrow> jsval \<Rightarrow> world
     \<Rightarrow> (js_error + jsval) \<times> world" where
  "signup net email password role country fullName w =
     (case request net (ascii ''/auth/signup'')
             \<lparr>http_method = Some (ascii ''POST''),
              body = JSON_stringify
                       (JObj [(ascii ''email'', JStr email),
                              (ascii ''password'', JStr password),
                              (ascii ''role'', JStr role),
                              (ascii ''country'', JStr country),
                              (ascii ''full_name'',
                               if fullName = JUndefined then JNull else fullName)]),
              headers = None\<rparr> w of
        (Inl e, w') \<Rightarrow> (Inl e, w')
      | (Inr response, w') \<Rightarrow>
          if truthy response then
            (case get_prop response (ascii ''access_token'') of
               Inl e \<Rightarrow> (Inl e, w')
             | Inr token \<Rightarrow>
                 (case get_prop response (ascii ''user_id'') of
                    Inl e \<Rightarrow> (Inl e, setToken token w')
                  | Inr uid \<Rightarrow>
                      (case get_prop response (ascii ''role'') of
                         Inl e \<Rightarrow> (Inl e, setToken token w')
                       | Inr r \<Rightarrow>
                           (Inr response, setUserData (identity uid r) (setToken token w')))))
          else (Inr response, w'))"

definition login ::
  "fetch \<Rightarrow> jstring \<Rightarrow> jstring \<Rightarrow> world \<Rightarrow> (js_error + jsval) \<times> world" where
  "login net email password w =
     (case request net (ascii ''/auth/login'')
             \<lparr>http_method = Some (ascii ''POST''),
              body = JSON_stringify (JObj [(ascii ''email'', JStr email),
                                           (ascii ''password'', JStr password)]),
              headers = None\<rparr> w of
        (Inl e, w') \<Rightarrow> (Inl e, w')
      | (Inr response, w') \<Rightarrow>
          if truthy response then
            (case get_prop response (ascii ''access_token'') of
               Inl e \<Rightarrow> (Inl e, w')
             | Inr token \<Rightarrow>
                 (case get_prop response (ascii ''user_id'') of
                    Inl e \<Rightarrow> (Inl e, setToken token w')
                  | Inr uid \<Rightarrow>
                      (case get_prop response (ascii ''role'') of
                         Inl e \<Rightarrow> (Inl e, setToken token w')
                       | Inr r \<Rightarrow>
                           (Inr response, setUserData (identity uid r) (setToken token w')))))
          else (Inr response, w'))"

definition getCurrentUser :: "fetch \<Rightarrow> world \<Rightarrow> (js_error + jsval) \<times> world" where
  "getCurrentUser net w = request net (ascii ''/auth/me'') no_options w"

definition logout :: "world \<Rightarrow> world" where
  "logout w = navigate (ascii ''/login.html'') (clearAll w)"

section \<open>The authorization guard\<close>

definition dashboard_url :: "jsval \<Rightarrow> jstring" where
  "dashboard_url role =
     (if role = JStr (ascii ''INVESTOR'') then ascii ''/investor-dashboard.html''
      else if role = JStr (ascii ''BUSINESS_OWNER'') then ascii ''/business-dashboard.html''
      else if role = JStr (ascii ''ADMIN'') then ascii ''/admin.html''
      else ascii ''/index.html'')"

definition redirectToDashboard :: "jsval \<Rightarrow> world \<Rightarrow> world" where
  "redirectToDashboard role w = navigate (dashboard_url role) w"

text \<open>
  \<^verbatim>\<open>allowedRoles\<close> is \<^verbatim>\<open>null\<close> (\<open>None\<close>) or an array of role names; an array, even
  an empty one, is truthy. \<^verbatim>\<open>includes\<close> finds a role only when it is a string equal to
  one of the names.
\<close>

definition array_includes :: "jstring list \<Rightarrow> jsval \<Rightarrow> bool" where
  "array_includes names v = (case v of JStr r \<Rightarrow> r \<in> set names | _ \<Rightarrow> False)"

definition requireAuth :: "jstring list option \<Rightarrow> world \<Rightarrow> (js_error + bool) \<times> world" where
  "requireAuth allowedRoles w =
     (if \<not> isAuthenticated w then (Inr False, navigate (ascii ''/login.html'') w)
      else
        (case getUserData w of
           Inl e \<Rightarrow> (Inl e, w)
         | Inr userData \<Rightarrow>
             (case allowedRoles of
                None \<Rightarrow> (Inr True, w)
              | Some names \<Rightarrow>
                  if \<not> array_includes names (opt_prop userData (ascii ''role'')) then
                    (Inr False, redirectToDashboard (opt_prop userData (ascii ''role'')) w)
                  else (Inr True, w))))"

section \<open>States and replies used as examples\<close>

text \<open>A browser with nothing stored, no navigation made and nothing logged.\<close>

definition fresh_world :: world where
  "fresh_world = \<lparr>localStorage = Map.empty, navigations = [], console_errors = []\<rparr>"

definition empty_store :: "world \<Rightarrow> world" where
  "empty_store w = w\<lparr>localStorage := Map.empty\<rparr>"

text \<open>Sessions as \<^verbatim>\<open>login\<close> leaves them, for an investor and for an administrator.\<close>

definition signed_in :: world where
  "signed_in =
     setUserData (identity (JStr (ascii ''u1'')) (JStr (ascii ''INVESTOR'')))
       (setToken (JStr (ascii ''tok'')) fresh_world)"

definition admin_session :: world where
  "admin_session =
     setUserData (identity (JStr (ascii ''u9'')) (JStr (ascii ''ADMIN'')))
       (setToken (JStr (ascii ''tok'')) fresh_world)"

text \<open>A token with no identity beside it, and a token beside an identity written from
  \<^verbatim>\<open>undefined\<close>.\<close>

definition token_only :: world where
  "token_only = setToken (JStr (ascii ''tok'')) fresh_world"

definition broken_session :: world where
  "broken_session = setUserData JUndefined (setToken (JStr (ascii ''tok'')) fresh_world)"

definition login_reply :: jstring where
  \<open>login_reply =
     ascii ''{"access_token":"eyJ.abc","token_type":"bearer","user_id":"u1","role":"INVESTOR"}''\<close>

definition empty_token_reply :: jstring where
  \<open>empty_token_reply = ascii ''{"access_token":"","user_id":"u1","role":"INVESTOR"}''\<close>

text \<open>
  A token beside an identity text that was cut off, as a write interrupted or edited by hand
  leaves it.
\<close>

definition truncated_session :: world where
  \<open>truncated_session =
     setItem (ascii ''bossup_user'') (ascii ''{"user_id":"u1"'')
       (setToken (JStr (ascii ''tok'')) fresh_world)\<close>

text \<open>
  Texts that name the character U+0100 by its escape: a reply to \<^verbatim>\<open>login\<close>, a stored
  identity and the body of a refusal. The last body carries a \<^verbatim>\<open>detail\<close> that is a number
  too small for a double, which the platform reads as zero.
\<close>

definition wide_login_reply :: jstring where
  \<open>wide_login_reply =
     ascii ''{"access_token":"tok","user_id":"'' @ U CHR 0x5C #
     ascii ''u0100","role":"INVESTOR"}''\<close>

definition wide_identity_text :: jstring where
  \<open>wide_identity_text =
     ascii ''{"user_id":"'' @ U CHR 0x5C # ascii ''u0100","role":"ADMIN"}''\<close>



text \<open>The object that the backend answers a login or a signup with, for three strings.\<close>

definition session_reply :: "jstring \<Rightarrow> jstring \<Rightarrow> jstring \<Rightarrow> jsval" where
  "session_reply t u r =
     JObj [(ascii ''access_token'', JStr t), (ascii ''user_id'', JStr u),
           (ascii ''role'', JStr r)]"

text \<open>The header a caller passed in \<^verbatim>\<open>options.headers\<close> under a name, if any.\<close>

definition caller_header :: "request_options \<Rightarrow> jstring \<Rightarrow> jstring option" where
  "caller_header options k = (case headers options of None \<Rightarrow> None | Some h \<Rightarrow> h k)"

section \<open>Facts about string literals\<close>

lemma U_eq [simp]: "(U c = U d) = (c = d)"
  by (simp add: U_def)

lemma ascii_eq [simp]: "(ascii s = ascii t) = (s = t)"
  by (simp add: ascii_def inj_on_def inj_map_eq_map)

lemma ascii_Nil [simp]: "ascii [] = []"
  by (simp add: ascii_def)


lemma ascii_not_Nil [simp]: "(ascii s = []) = (s = [])"
  by (simp add: ascii_def)

section \<open>Facts about the store\<close>

lemma localStorage_clearAll:
  "localStorage (clearAll w) =
     (localStorage w)(ascii ''bossup_token'' := None, ascii ''bossup_user'' := None)"
  by (simp add: clearAll_def removeItem_def)

lemma getToken_clearAll: "getToken (clearAll w) = None"
  by (simp add: getToken_def getItem_def localStorage_clearAll)

lemma user_item_clearAll: "getItem (ascii ''bossup_user'') (clearAll w) = None"
  by (simp add: getItem_def localStorage_clearAll)

lemma user_item_setItem:
  "getItem (ascii ''bossup_user'') (setItem (ascii ''bossup_user'') x w) = Some x"
  by (simp add: getItem_def setItem_def)

lemma getToken_setToken: "getToken (setToken t w) = Some (to_string t)"
  by (simp add: getToken_def setToken_def setItem_def getItem_def)

lemma getToken_setUserData: "getToken (setUserData d w) = getToken w"
  by (simp add: getToken_def setUserData_def setItem_def getItem_def)

lemma getUserData_setToken: "getUserData (setToken t w) = getUserData w"
  by (simp add: getUserData_def setToken_def setItem_def getItem_def)

lemma getToken_only_user_writes:
  "getToken (run_ops (map SetUserData ds) w) = getToken w"
  unfolding run_ops_def
  by (induction ds arbitrary: w) (simp_all add: getToken_setUserData)

lemma getToken_empty_store: "getToken (empty_store w) = None"
  by (simp add: getToken_def getItem_def empty_store_def)

lemma fresh_world_unauthenticated: "isAuthenticated fresh_world = False"
  by (simp add: isAuthenticated_def getToken_def getItem_def fresh_world_def)

section \<open>The bound on calls of the reader\<close>

text \<open>
  Every reader that succeeds consumes at least one character, so the readers of values,
  elements and members succeed with the same result under any bound on calls of at least
  twice the number of characters consumed (plus one for elements and members). The bound
  that \<open>JSON_parse\<close> passes is therefore never what makes a reading fail.
\<close>

lemma length_skip_ws: "length (skip_ws s) \<le> length s"
  by (simp add: skip_ws_def length_dropWhile_le)

lemma parse_chars_shorter: "parse_chars cs = Some (str, r) \<Longrightarrow> length r < length cs"
proof (induction cs arbitrary: str r rule: parse_chars.induct)
  case 1
  then show ?case by simp
next
  case (2 c cs)
  show ?case
    using "2.prems" "2.IH"
    apply (simp add: cons_char_def split: if_splits list.splits option.splits prod.splits)
      apply fastforce+
    done
qed

lemma digits1_shorter: "digits1 s = Some (ds, r) \<Longrightarrow> length r < length s"
  by (cases s) (auto simp add: digits1_def split: if_splits intro: le_imp_less_Suc length_dropWhile_le)

lemma parse_int_part_shorter: "parse_int_part s = Some (ip, r) \<Longrightarrow> length r < length s"
  by (auto simp add: parse_int_part_def split: list.splits if_splits dest: digits1_shorter)

lemma parse_frac_shorter: "parse_frac s = Some (fp, r) \<Longrightarrow> length r \<le> length s"
  by (auto simp add: parse_frac_def split: list.splits if_splits option.splits dest!: digits1_shorter)

lemma parse_sign_shorter: "length (snd (parse_sign s)) \<le> length s"
  by (auto simp add: parse_sign_def split: list.splits)

lemma parse_exp_shorter: "parse_exp s = Some (ep, r) \<Longrightarrow> length r \<le> length s"
  using parse_sign_shorter
  by (auto simp add: parse_exp_def split: list.splits if_splits option.splits dest!: digits1_shorter
      intro: less_imp_le order.strict_trans2 le_SucI)

lemma parse_number_shorter: "parse_number s = Some (lit, r) \<Longrightarrow> length r < length s"
  apply (auto simp add: parse_number_def split: list.splits if_splits option.splits prod.splits
      dest!: parse_int_part_shorter parse_frac_shorter parse_exp_shorter)
  done

lemma parse_word_shorter: "parse_word w v s = Some (x, r) \<Longrightarrow> w \<noteq> [] \<Longrightarrow> length r < length s"
  by (cases s) (auto simp add: parse_word_def split: if_splits)


lemma parse_value_Suc_cases:
  assumes "parse_value (Suc n) s = Some (v, r)"
  obtains (members) cs where "skip_ws s = U CHR ''{'' # cs"
      and "parse_members n [] cs = Some (v, r)"
      and "\<And>m. parse_value (Suc m) s = parse_members m [] cs"
    | (elems) cs where "skip_ws s = U CHR ''['' # cs"
      and "parse_elems n [] cs = Some (v, r)"
      and "\<And>m. parse_value (Suc m) s = parse_elems m [] cs"
    | (flat) "length r < length s" and "\<And>m. parse_value (Suc m) s = Some (v, r)"
proof -
  obtain c cs where t: "skip_ws s = c # cs"
    using assms by (cases "skip_ws s") simp_all
  have len: "Suc (length cs) \<le> length s"
    using length_skip_ws [of s] t by simp
  consider (obj) "c = U CHR ''{''" | (arr) "c = U CHR ''[''" | (str) "c = U CHR 0x22"
    | (tr) "c = U CHR ''t''" | (fa) "c = U CHR ''f''" | (nu) "c = U CHR ''n''"
    | (num) "c \<noteq> U CHR ''{''" "c \<noteq> U CHR ''[''" "c \<noteq> U CHR 0x22" "c \<noteq> U CHR ''t''"
        "c \<noteq> U CHR ''f''" "c \<noteq> U CHR ''n''"
    by blast
  then show ?thesis
  proof cases
    case obj
    obtain d ds where u: "skip_ws cs = d # ds"
      using assms t obj by (cases "skip_ws cs") simp_all
    have len2: "Suc (length ds) \<le> length cs"
      using length_skip_ws [of cs] u by simp
    show ?thesis
    proof (cases "d = U CHR ''}''")
      case True
      with assms t obj u have "v = JObj []" "r = ds" by simp_all
      with len len2 t obj u True show ?thesis
        by (intro flat) simp_all
    next
      case False
      with assms t obj u show ?thesis
        by (intro members [of cs]) simp_all
    qed
  next
    case arr
    obtain d ds where u: "skip_ws cs = d # ds"
      using assms t arr by (cases "skip_ws cs") simp_all
    have len2: "Suc (length ds) \<le> length cs"
      using length_skip_ws [of cs] u by simp
    show ?thesis
    proof (cases "d = U CHR '']''")
      case True
      with assms t arr u have "v = JArr []" "r = ds" by simp_all
      with len len2 t arr u True show ?thesis
        by (intro flat) simp_all
    next
      case False
      with assms t arr u show ?thesis
        by (intro elems [of cs]) simp_all
    qed
  next
    case str
    with assms t obtain x where x: "parse_chars cs = Some (x, r)" "v = JStr x"
      by (auto split: option.splits)
    with len parse_chars_shorter [OF x(1)] t str show ?thesis
      by (intro flat) simp_all
  next
    case tr
    with assms t have w: "parse_word (ascii ''true'') (JBool True) (c # cs) = Some (v, r)" by simp
    from parse_word_shorter [OF w] len t tr w ascii_not_Nil show ?thesis
      by (intro flat) simp_all
  next
    case fa
    with assms t have w: "parse_word (ascii ''false'') (JBool False) (c # cs) = Some (v, r)" by simp
    from parse_word_shorter [OF w] len t fa w ascii_not_Nil show ?thesis
      by (intro flat) simp_all
  next
    case nu
    with assms t have w: "parse_word (ascii ''null'') JNull (c # cs) = Some (v, r)" by simp
    from parse_word_shorter [OF w] len t nu w ascii_not_Nil show ?thesis
      by (intro flat) simp_all
  next
    case num
    with assms t obtain lit where w: "parse_number (c # cs) = Some (lit, r)" "v = JNum lit"
      by (auto split: option.splits)
    from parse_number_shorter [OF w(1)] len t num w show ?thesis
      by (intro flat) simp_all
  qed
qed

lemma parse_elems_Suc_cases:
  assumes "parse_elems (Suc n) acc s = Some (v, r)"
  obtains (more) x r1 ds where "parse_value n s = Some (x, r1)"
      and "skip_ws r1 = U CHR '','' # ds"
      and "parse_elems n (acc @ [x]) ds = Some (v, r)"
    | (last) x r1 where "parse_value n s = Some (x, r1)"
      and "skip_ws r1 = U CHR '']'' # r" and "v = JArr (acc @ [x])"
  using assms
  by (auto split: option.splits list.splits if_splits)

lemma parse_elems_more:
  "parse_value m s = Some (x, r1) \<Longrightarrow> skip_ws r1 = U CHR '','' # ds \<Longrightarrow>
   parse_elems (Suc m) acc s = parse_elems m (acc @ [x]) ds"
  by simp

lemma parse_elems_last:
  "parse_value m s = Some (x, r1) \<Longrightarrow> skip_ws r1 = U CHR '']'' # r \<Longrightarrow>
   parse_elems (Suc m) acc s = Some (JArr (acc @ [x]), r)"
  by simp

lemma parse_members_Suc_cases:
  assumes "parse_members (Suc n) acc s = Some (v, r)"
  obtains (more) cs k r0 r' x r1 ds where "skip_ws s = U CHR 0x22 # cs"
      and "parse_chars cs = Some (k, r0)" and "skip_ws r0 = U CHR '':'' # r'"
      and "parse_value n r' = Some (x, r1)" and "skip_ws r1 = U CHR '','' # ds"
      and "parse_members n (obj_put k x acc) ds = Some (v, r)"
    | (last) cs k r0 r' x r1 where "skip_ws s = U CHR 0x22 # cs"
      and "parse_chars cs = Some (k, r0)" and "skip_ws r0 = U CHR '':'' # r'"
      and "parse_value n r' = Some (x, r1)" and "skip_ws r1 = U CHR ''}'' # r"
      and "v = JObj (obj_put k x acc)"
  using assms
  by (auto split: option.splits list.splits if_splits)

lemma parse_members_more':
  "skip_ws s = U CHR 0x22 # cs \<Longrightarrow> parse_chars cs = Some (k, r0) \<Longrightarrow>
   skip_ws r0 = U CHR '':'' # r' \<Longrightarrow> parse_value m r' = Some (x, r1) \<Longrightarrow>
   skip_ws r1 = U CHR '','' # ds \<Longrightarrow>
   parse_members (Suc m) acc s = parse_members m (obj_put k x acc) ds"
  by simp

lemma parse_members_last':
  "skip_ws s = U CHR 0x22 # cs \<Longrightarrow> parse_chars cs = Some (k, r0) \<Longrightarrow>
   skip_ws r0 = U CHR '':'' # r' \<Longrightarrow> parse_value m r' = Some (x, r1) \<Longrightarrow>
   skip_ws r1 = U CHR ''}'' # r \<Longrightarrow>
   parse_members (Suc m) acc s = Some (JObj (obj_put k x acc), r)"
  by simp

lemma skip_ws_Cons_length: "skip_ws s = c # cs \<Longrightarrow> Suc (length cs) \<le> length s"
  using length_skip_ws [of s] by simp

lemma fuel_bound:
  "parse_value n s = Some (v, r) \<Longrightarrow>
      length r < length s \<and>
      (\<forall>m. 2 * (length s - length r) \<le> m \<longrightarrow> parse_value m s = Some (v, r))"
  "parse_elems n acc s = Some (v, r) \<Longrightarrow>
      length r < length s \<and>
      (\<forall>m. 2 * (length s - length r) + 1 \<le> m \<longrightarrow> parse_elems m acc s = Some (v, r))"
  "parse_members n macc s = Some (v, r) \<Longrightarrow>
      length r < length s \<and>
      (\<forall>m. 2 * (length s - length r) + 1 \<le> m \<longrightarrow> parse_members m macc s = Some (v, r))"
proof (induction n arbitrary: s v r acc macc)
  case 0
  {
    case 1 then show ?case by simp
  next
    case 2 then show ?case by simp
  next
    case 3 then show ?case by simp
  }
next
  case (Suc n)
  note V = Suc.IH(1) [THEN conjunct1] and V' = Suc.IH(1) [THEN conjunct2, rule_format]
    and E = Suc.IH(2) [THEN conjunct1] and E' = Suc.IH(2) [THEN conjunct2, rule_format]
    and M = Suc.IH(3) [THEN conjunct1] and M' = Suc.IH(3) [THEN conjunct2, rule_format]
  {
    case 1
    then show ?case
    proof (cases rule: parse_value_Suc_cases)
      case (members cs)
      note l1 = skip_ws_Cons_length [OF members(1)] and l2 = M [OF members(2)]
      have "parse_value m s = Some (v, r)" if "2 * (length s - length r) \<le> m" for m
      proof -
        from that l1 l2 obtain m' where m: "m = Suc m'" "2 * (length cs - length r) + 1 \<le> m'"
          by (cases m) simp_all
        show ?thesis
          unfolding m(1) members(3) by (rule M' [OF members(2) m(2)])
      qed
      with l1 l2 show ?thesis by simp
    next
      case (elems cs)
      note l1 = skip_ws_Cons_length [OF elems(1)] and l2 = E [OF elems(2)]
      have "parse_value m s = Some (v, r)" if "2 * (length s - length r) \<le> m" for m
      proof -
        from that l1 l2 obtain m' where m: "m = Suc m'" "2 * (length cs - length r) + 1 \<le> m'"
          by (cases m) simp_all
        show ?thesis
          unfolding m(1) elems(3) by (rule E' [OF elems(2) m(2)])
      qed
      with l1 l2 show ?thesis by simp
    next
      case flat
      have "parse_value m s = Some (v, r)" if "2 * (length s - length r) \<le> m" for m
      proof -
        from that flat(1) obtain m' where "m = Suc m'" by (cases m) simp_all
        with flat(2) show ?thesis by simp
      qed
      with flat(1) show ?thesis by simp
    qed
  next
    case 2
    then show ?case
    proof (cases rule: parse_elems_Suc_cases)
      case (more x r1 ds)
      note l1 = V [OF more(1)] and l2 = skip_ws_Cons_length [OF more(2)] and l3 = E [OF more(3)]
      have "parse_elems m acc s = Some (v, r)" if "2 * (length s - length r) + 1 \<le> m" for m
      proof -
        from that obtain m' where m: "m = Suc m'" "2 * (length s - length r) \<le> m'"
          by (cases m) simp_all
        from m(2) l1 l2 l3 have b1: "2 * (length s - length r1) \<le> m'" by linarith
        from m(2) l1 l2 l3 have b2: "2 * (length ds - length r) + 1 \<le> m'" by linarith
        show ?thesis
          unfolding m(1) parse_elems_more [OF V' [OF more(1) b1] more(2)]
          by (rule E' [OF more(3) b2])
      qed
      with l1 l2 l3 show ?thesis by simp
    next
      case (last x r1)
      note l1 = V [OF last(1)] and l2 = skip_ws_Cons_length [OF last(2)]
      have "parse_elems m acc s = Some (v, r)" if "2 * (length s - length r) + 1 \<le> m" for m
      proof -
        from that obtain m' where m: "m = Suc m'" "2 * (length s - length r) \<le> m'"
          by (cases m) simp_all
        from m(2) l1 l2 have b1: "2 * (length s - length r1) \<le> m'" by linarith
        show ?thesis
          unfolding m(1) parse_elems_last [OF V' [OF last(1) b1] last(2)] last(3) by simp
      qed
      with l1 l2 show ?thesis by simp
    qed
  next
    case 3
    then show ?case
    proof (cases rule: parse_members_Suc_cases)
      case (more cs k r0 r' x r1 ds)
      note l0 = skip_ws_Cons_length [OF more(1)] and l1 = parse_chars_shorter [OF more(2)]
        and l2 = skip_ws_Cons_length [OF more(3)] and l3 = V [OF more(4)]
        and l4 = skip_ws_Cons_length [OF more(5)] and l5 = M [OF more(6)]
      have "parse_members m macc s = Some (v, r)" if "2 * (length s - length r) + 1 \<le> m" for m
      proof -
        from that obtain m' where m: "m = Suc m'" "2 * (length s - length r) \<le> m'"
          by (cases m) simp_all
        from m(2) l0 l1 l2 l3 l4 l5 have b1: "2 * (length r' - length r1) \<le> m'" by linarith
        from m(2) l0 l1 l2 l3 l4 l5 have b2: "2 * (length ds - length r) + 1 \<le> m'" by linarith
        show ?thesis
          unfolding m(1)
            parse_members_more' [OF more(1) more(2) more(3) V' [OF more(4) b1] more(5)]
          by (rule M' [OF more(6) b2])
      qed
      moreover from l0 l1 l2 l3 l4 l5 have "length r < length s" by linarith
      ultimately show ?thesis by simp
    next
      case (last cs k r0 r' x r1)
      note l0 = skip_ws_Cons_length [OF last(1)] and l1 = parse_chars_shorter [OF last(2)]
        and l2 = skip_ws_Cons_length [OF last(3)] and l3 = V [OF last(4)]
        and l4 = skip_ws_Cons_length [OF last(5)]
      have "parse_members m macc s = Some (v, r)" if "2 * (length s - length r) + 1 \<le> m" for m
      proof -
        from that obtain m' where m: "m = Suc m'" "2 * (length s - length r) \<le> m'"
          by (cases m) simp_all
        from m(2) l0 l1 l2 l3 l4 have b1: "2 * (length r' - length r1) \<le> m'" by linarith
        show ?thesis
          unfolding m(1)
            parse_members_last' [OF last(1) last(2) last(3) V' [OF last(4) b1] last(5)] last(6)
          by simp
      qed
      moreover from l0 l1 l2 l3 l4 have "length r < length s" by linarith
      ultimately show ?thesis by simp
    qed
  }
qed


lemma JSON_parse_any_fuel:
  assumes "parse_value n s = Some (v, r)" and "skip_ws r = []"
  shows "JSON_parse s = Some v"
proof -
  have "2 * (length s - length r) \<le> 2 * length s + 2" by simp
  with fuel_bound(1) [OF assms(1), THEN conjunct2, rule_format]
  have "parse_value (2 * length s + 2) s = Some (v, r)" .
  with assms(2) show ?thesis by (simp add: JSON_parse_def)
qed

section \<open>Reading back what \<^verbatim>\<open>JSON.stringify\<close> wrote\<close>

lemma hex_val_digit: "k < 16 \<Longrightarrow> hex_val (hex_digit k) = Some k"
  by (auto simp add: hex_val_def hex_digit_def)

lemma hex_places:
  "((c div 4096 * 16 + c div 256 mod 16) * 16 + c div 16 mod 16) * 16 + c mod 16 = (c::nat)"
proof -
  have "c div 256 = c div 16 div 16" "c div 4096 = c div 256 div 16"
    by (simp_all add: div_mult2_eq)
  then have "c div 4096 * 16 + c div 256 mod 16 = c div 256"
    and "c div 256 * 16 + c div 16 mod 16 = c div 16"
    by simp_all
  then show ?thesis by simp
qed

lemma hex4_digits:
  assumes "c < 65536"
  shows "hex4 (hex_digit (c div 4096)) (hex_digit (c div 256 mod 16))
              (hex_digit (c div 16 mod 16)) (hex_digit (c mod 16)) = Some c"
proof -
  have d: "c div 4096 < 16" "c div 256 mod 16 < 16" "c div 16 mod 16 < 16" "c mod 16 < 16"
    using assms by simp_all
  show ?thesis
    unfolding hex4_def
    by (simp only: hex_val_digit [OF d(1)] hex_val_digit [OF d(2)] hex_val_digit [OF d(3)]
        hex_val_digit [OF d(4)] hex_places prod.case option.case)
qed


lemma parse_chars_unicode_escape:
  "c < 65536 \<Longrightarrow> parse_chars (unicode_escape c @ rest) = cons_char c (parse_chars rest)"
  by (simp add: unicode_escape_def hex4_digits)

text \<open>One escaped code unit is read back as the code unit it stands for.\<close>

lemma parse_chars_escape:
  "parse_chars (escape_char c @ rest) = cons_char c (parse_chars rest)"
proof -
  consider (dquote) "c = U CHR 0x22" | (backslash) "c = U CHR 0x5C"
    | (bs) "c = U CHR 0x08" | (ff) "c = U CHR 0x0C" | (lf) "c = U CHR 0x0A"
    | (cr) "c = U CHR 0x0D" | (tab) "c = U CHR 0x09"
    | (escaped) "c \<noteq> U CHR 0x22" "c \<noteq> U CHR 0x5C" "c \<noteq> U CHR 0x08" "c \<noteq> U CHR 0x0C"
        "c \<noteq> U CHR 0x0A" "c \<noteq> U CHR 0x0D" "c \<noteq> U CHR 0x09"
        "c < 32 \<or> is_high_surrogate c \<or> is_low_surrogate c"
    | (plain) "c \<noteq> U CHR 0x22" "c \<noteq> U CHR 0x5C" "c \<noteq> U CHR 0x08" "c \<noteq> U CHR 0x0C"
        "c \<noteq> U CHR 0x0A" "c \<noteq> U CHR 0x0D" "c \<noteq> U CHR 0x09"
        "\<not> (c < 32 \<or> is_high_surrogate c \<or> is_low_surrogate c)"
    by blast
  then show ?thesis
  proof cases
    case escaped
    then have "c < 65536"
      by (auto simp add: is_high_surrogate_def is_low_surrogate_def)
    with escaped show ?thesis
      by (simp add: escape_char_def parse_chars_unicode_escape del: parse_chars.simps)
  next
    case plain
    then show ?thesis by (simp add: escape_char_def)
  qed (simp_all add: escape_char_def unescape_def)
qed

lemma parse_chars_close: "parse_chars (U CHR 0x22 # rest) = Some ([], rest)"
  by simp

lemma parse_chars_quoted:
  "parse_chars (escape_units s @ U CHR 0x22 # rest) = Some (s, rest)"
proof (induction s rule: escape_units.induct)
  case 1
  show ?case by simp
next
  case (2 c)
  show ?case
    by (simp add: parse_chars_escape parse_chars_close cons_char_def del: parse_chars.simps)
next
  case (3 c d cs)
  show ?case
  proof (cases "is_high_surrogate c \<and> is_low_surrogate d")
    case True
    then have "c \<noteq> U CHR 0x22" "c \<noteq> U CHR 0x5C" "\<not> c < 32"
      "d \<noteq> U CHR 0x22" "d \<noteq> U CHR 0x5C" "\<not> d < 32"
      by (auto simp add: is_high_surrogate_def is_low_surrogate_def U_def)
    with True "3.IH"(1) show ?thesis
      by (simp add: cons_char_def)
  next
    case False
    then have e: "escape_units (c # d # cs) = escape_char c @ escape_units (d # cs)"
      by auto
    show ?thesis
      unfolding e using "3.IH"(2) [OF False]
      by (simp add: parse_chars_escape cons_char_def del: parse_chars.simps)
  qed
qed

lemma quote_append:
  "quote s @ rest = U CHR 0x22 # (escape_units s @ U CHR 0x22 # rest)"
  by (simp add: quote_def)

lemma skip_ws_quoted: "skip_ws (quote s @ rest) = quote s @ rest"
  by (simp add: quote_def skip_ws_def is_ws_def)

lemma parse_value_quoted:
  "parse_value (Suc n) (quote s @ rest) = Some (JStr s, rest)"
  by (simp add: skip_ws_quoted) (simp add: quote_def parse_chars_quoted)

lemma parse_value_open:
  "parse_value (Suc n) (U CHR ''{'' # quote k @ rest) = parse_members n [] (quote k @ rest)"
  by (simp add: skip_ws_quoted) (simp add: quote_def skip_ws_def is_ws_def)

text \<open>One member of an object whose name and value are read, up to the separator.\<close>

lemma parse_members_step:
  assumes "parse_chars cs = Some (k, U CHR '':'' # r')"
    and "parse_value n r' = Some (v, d # ds)"
    and "\<not> is_ws d"
  shows "parse_members (Suc n) acc (U CHR 0x22 # cs) =
           (if d = U CHR '','' then parse_members n (obj_put k v acc) ds
            else if d = U CHR ''}'' then Some (JObj (obj_put k v acc), ds)
            else None)"
  using assms
  by (subst parse_members.simps)
     (simp add: skip_ws_def is_ws_def del: parse_members.simps parse_value.simps)

lemma parse_members_more:
  "parse_members (Suc (Suc n)) acc (quote k @ U CHR '':'' # quote s @ U CHR '','' # rest) =
     parse_members (Suc n) (obj_put k (JStr s) acc) rest"
  unfolding quote_append [of k]
  by (subst parse_members_step [OF parse_chars_quoted parse_value_quoted])
     (simp_all add: is_ws_def)

lemma parse_members_last:
  "parse_members (Suc (Suc n)) acc (quote k @ U CHR '':'' # quote s @ U CHR ''}'' # rest) =
     Some (JObj (obj_put k (JStr s) acc), rest)"
  unfolding quote_append [of k]
  by (subst parse_members_step [OF parse_chars_quoted parse_value_quoted])
     (simp_all add: is_ws_def)


lemma identity_text:
  "JSON_stringify (identity (JStr u) (JStr r)) =
     Some (U CHR ''{'' # quote (ascii ''user_id'') @ U CHR '':'' # quote u @ U CHR '','' #
           quote (ascii ''role'') @ U CHR '':'' # quote r @ [U CHR ''}''])"
  by (simp add: identity_def)

lemma parse_identity:
  "parse_value (Suc (Suc (Suc (Suc n))))
     (U CHR ''{'' # quote (ascii ''user_id'') @ U CHR '':'' # quote u @ U CHR '','' #
      quote (ascii ''role'') @ U CHR '':'' # quote r @ [U CHR ''}''])
   = Some (identity (JStr u) (JStr r), [])"
  by (simp only: parse_value_open parse_members_more parse_members_last)
     (simp add: identity_def)


lemma JSON_parse_identity:
  assumes "JSON_stringify (identity (JStr u) (JStr r)) = Some blob"
  shows "JSON_parse blob = Some (identity (JStr u) (JStr r))" and "blob \<noteq> []"
proof -
  from assms have t: "blob = U CHR ''{'' # quote (ascii ''user_id'') @ U CHR '':'' # quote u @
      U CHR '','' # quote (ascii ''role'') @ U CHR '':'' # quote r @ [U CHR ''}'']"
    by (simp add: identity_text)
  then obtain m where m: "2 * length blob + 2 = Suc (Suc (Suc (Suc m)))"
    by (cases blob) simp_all
  show "JSON_parse blob = Some (identity (JStr u) (JStr r))"
    unfolding JSON_parse_def m
    by (simp only: t parse_identity) (simp add: skip_ws_def)
  show "blob \<noteq> []" using t by simp
qed

text \<open>An identity of two strings written by \<^verbatim>\<open>setUserData\<close> is read back unchanged.\<close>

lemma getUserData_identity:
  "getUserData (setUserData (identity (JStr u) (JStr r)) w) = Inr (identity (JStr u) (JStr r))"
proof -
  obtain blob where s: "JSON_stringify (identity (JStr u) (JStr r)) = Some blob"
    by (simp add: identity_def)
  show ?thesis
    using JSON_parse_identity [OF s]
    by (simp add: getUserData_def setUserData_def setItem_def getItem_def s)
qed

text \<open>
  So is the object that answers a login, for any three strings: the text that
  \<^verbatim>\<open>JSON.stringify\<close> writes for it is read back as that object.
\<close>

lemma session_reply_text:
  "JSON_stringify (session_reply t u r) =
     Some (U CHR ''{'' # quote (ascii ''access_token'') @ U CHR '':'' # quote t @ U CHR '','' #
           quote (ascii ''user_id'') @ U CHR '':'' # quote u @ U CHR '','' #
           quote (ascii ''role'') @ U CHR '':'' # quote r @ [U CHR ''}''])"
  by (simp add: session_reply_def)

lemma parse_session_reply:
  "parse_value (Suc (Suc (Suc (Suc (Suc n)))))
     (U CHR ''{'' # quote (ascii ''access_token'') @ U CHR '':'' # quote t @ U CHR '','' #
      quote (ascii ''user_id'') @ U CHR '':'' # quote u @ U CHR '','' #
      quote (ascii ''role'') @ U CHR '':'' # quote r @ [U CHR ''}''])
   = Some (session_reply t u r, [])"
  by (simp only: parse_value_open parse_members_more parse_members_last)
     (simp add: session_reply_def)

lemma JSON_parse_session_reply:
  assumes "JSON_stringify (session_reply t u r) = Some blob"
  shows "JSON_parse blob = Some (session_reply t u r)"
proof -
  from assms have b: "blob =
      U CHR ''{'' # quote (ascii ''access_token'') @ U CHR '':'' # quote t @ U CHR '','' #
      quote (ascii ''user_id'') @ U CHR '':'' # quote u @ U CHR '','' #
      quote (ascii ''role'') @ U CHR '':'' # quote r @ [U CHR ''}'']"
    by (simp add: session_reply_text)
  then have "2 \<le> length blob"
    by (simp add: quote_def)
  then have "2 * length blob + 2 = Suc (Suc (Suc (Suc (Suc (2 * length blob - 3)))))"
    by simp
  then obtain m where m: "2 * length blob + 2 = Suc (Suc (Suc (Suc (Suc m))))" ..
  show ?thesis
    unfolding JSON_parse_def m
    by (simp only: b parse_session_reply) (simp add: skip_ws_def)
qed

subsection \<open>Texts read in the examples\<close>


lemma JSON_parse_undefined: "JSON_parse (ascii ''undefined'') = None"
  by code_simp

lemma JSON_parse_null: "JSON_parse (ascii ''null'') = Some JNull"
  by code_simp

lemma JSON_parse_html: "JSON_parse (ascii ''<html>Unauthorized</html>'') = None"
  by code_simp

lemma JSON_parse_truncated: \<open>JSON_parse (ascii ''{"user_id":"u1"'') = None\<close>
  by code_simp

lemma JSON_parse_investor:
  \<open>JSON_parse (ascii ''{"user_id":"u1","role":"INVESTOR"}'') =
     Some (identity (JStr (ascii ''u1'')) (JStr (ascii ''INVESTOR'')))\<close>
  by code_simp

lemma parse_wide_identity:
  "JSON_parse wide_identity_text = Some (identity (JStr [256]) (JStr (ascii ''ADMIN'')))"
  by code_simp








lemma parse_login_reply:
  "JSON_parse login_reply =
     Some (JObj [(ascii ''access_token'', JStr (ascii ''eyJ.abc'')),
                 (ascii ''token_type'', JStr (ascii ''bearer'')),
                 (ascii ''user_id'', JStr (ascii ''u1'')),
                 (ascii ''role'', JStr (ascii ''INVESTOR''))])"
  by code_simp

lemma parse_wide_login_reply:
  "JSON_parse wide_login_reply =
     Some (JObj [(ascii ''access_token'', JStr (ascii ''tok'')),
                 (ascii ''user_id'', JStr [256]),
                 (ascii ''role'', JStr (ascii ''INVESTOR''))])"
  by code_simp

lemma parse_empty_token_reply:
  "JSON_parse empty_token_reply =
     Some (JObj [(ascii ''access_token'', JStr []), (ascii ''user_id'', JStr (ascii ''u1'')),
                 (ascii ''role'', JStr (ascii ''INVESTOR''))])"
  by code_simp


subsection \<open>The example states\<close>

lemma signed_in_facts:
  "isAuthenticated signed_in"
  "getToken signed_in = Some (ascii ''tok'')"
  "getUserData signed_in = Inr (identity (JStr (ascii ''u1'')) (JStr (ascii ''INVESTOR'')))"
  "navigations signed_in = []"
  by (simp_all add: signed_in_def isAuthenticated_def getToken_setUserData getToken_setToken
      getUserData_identity)
     (simp add: setUserData_def setToken_def setItem_def fresh_world_def)

lemma admin_session_facts:
  "isAuthenticated admin_session"
  "getUserData admin_session = Inr (identity (JStr (ascii ''u9'')) (JStr (ascii ''ADMIN'')))"
  by (simp_all add: admin_session_def isAuthenticated_def getToken_setUserData getToken_setToken
      getUserData_identity)

lemma token_only_facts:
  "isAuthenticated token_only"
  "getUserData token_only = Inr JNull"
  by (simp_all add: token_only_def isAuthenticated_def getToken_setToken getUserData_setToken)
     (simp add: getUserData_def getItem_def fresh_world_def)

lemma broken_session_facts:
  "isAuthenticated broken_session"
  "getItem (ascii ''bossup_user'') broken_session = Some (ascii ''undefined'')"
  "getUserData broken_session = Inl SyntaxError"
proof -
  show "isAuthenticated broken_session"
    by (simp add: broken_session_def isAuthenticated_def getToken_setUserData getToken_setToken)
  show b: "getItem (ascii ''bossup_user'') broken_session = Some (ascii ''undefined'')"
    by (simp add: broken_session_def setUserData_def user_item_setItem)
  show "getUserData broken_session = Inl SyntaxError"
    by (simp add: getUserData_def b JSON_parse_undefined)
qed

lemma truncated_session_facts:
  "isAuthenticated truncated_session"
  \<open>getItem (ascii ''bossup_user'') truncated_session = Some (ascii ''{"user_id":"u1"'')\<close>
  "getUserData truncated_session = Inl SyntaxError"
proof -
  show "isAuthenticated truncated_session"
    by (simp add: truncated_session_def isAuthenticated_def getToken_def getItem_def
        setItem_def setToken_def)
  show b: \<open>getItem (ascii ''bossup_user'') truncated_session = Some (ascii ''{"user_id":"u1"'')\<close>
    by (simp add: truncated_session_def user_item_setItem)
  show "getUserData truncated_session = Inl SyntaxError"
    by (simp add: getUserData_def b JSON_parse_truncated)
qed

section \<open>Facts about \<^verbatim>\<open>request\<close>, \<^verbatim>\<open>login\<close> and \<^verbatim>\<open>signup\<close>\<close>

lemma get_prop_own: "own_prop v k \<noteq> JUndefined \<Longrightarrow> get_prop v k = Inr (own_prop v k)"
  by (cases v) simp_all

lemma truthy_own: "own_prop v k \<noteq> JUndefined \<Longrightarrow> truthy v"
  by (cases v) simp_all


lemma request_success:
  "response_ok status \<Longrightarrow> JSON_parse blob = Some resp \<Longrightarrow>
   request (\<lambda>url init. Response status blob) endpoint options w = (Inr resp, w)"
  by (auto simp add: request_def response_ok_def)

lemma login_success:
  assumes "response_ok status" and "JSON_parse blob = Some resp"
    and "own_prop resp (ascii ''access_token'') = JStr t"
    and "own_prop resp (ascii ''user_id'') = JStr u"
    and "own_prop resp (ascii ''role'') = JStr r"
  shows "login (\<lambda>url init. Response status blob) email password w =
           (Inr resp, setUserData (identity (JStr u) (JStr r)) (setToken (JStr t) w))"
proof -
  have "truthy resp"
    using assms(3) truthy_own [of resp "ascii ''access_token''"] by simp
  moreover have "get_prop resp (ascii ''access_token'') = Inr (JStr t)"
    "get_prop resp (ascii ''user_id'') = Inr (JStr u)"
    "get_prop resp (ascii ''role'') = Inr (JStr r)"
    using assms(3,4,5) by (simp_all add: get_prop_own)
  ultimately show ?thesis
    unfolding login_def by (simp add: request_success [OF assms(1,2)])
qed

lemma signup_success:
  assumes "response_ok status" and "JSON_parse blob = Some resp"
    and "own_prop resp (ascii ''access_token'') = JStr t"
    and "own_prop resp (ascii ''user_id'') = JStr u"
    and "own_prop resp (ascii ''role'') = JStr r"
  shows "signup (\<lambda>url init. Response status blob) email password role country fullName w =
           (Inr resp, setUserData (identity (JStr u) (JStr r)) (setToken (JStr t) w))"
proof -
  have "truthy resp"
    using assms(3) truthy_own [of resp "ascii ''access_token''"] by simp
  moreover have "get_prop resp (ascii ''access_token'') = Inr (JStr t)"
    "get_prop resp (ascii ''user_id'') = Inr (JStr u)"
    "get_prop resp (ascii ''role'') = Inr (JStr r)"
    using assms(3,4,5) by (simp_all add: get_prop_own)
  ultimately show ?thesis
    unfolding signup_def by (simp add: request_success [OF assms(1,2)])
qed

lemma session_after_persist:
  "getToken (setUserData (identity (JStr u) (JStr r)) (setToken (JStr t) w)) = Some t"
  "getUserData (setUserData (identity (JStr u) (JStr r)) (setToken (JStr t) w))
     = Inr (identity (JStr u) (JStr r))"
  by (simp_all add: getToken_setUserData getToken_setToken getUserData_identity)

lemma session_reply_props:
  "own_prop (session_reply t u r) (ascii ''access_token'') = JStr t"
  "own_prop (session_reply t u r) (ascii ''user_id'') = JStr u"
  "own_prop (session_reply t u r) (ascii ''role'') = JStr r"
  by (simp_all add: session_reply_def)

lemma request_headers_content_type:
  "request_headers options w (ascii ''Content-Type'') =
     Some (case caller_header options (ascii ''Content-Type'') of
             None \<Rightarrow> ascii ''application/json'' | Some v \<Rightarrow> v)"
  by (cases "getToken w")
     (auto simp add: request_headers_def caller_header_def map_add_def Let_def
        split: option.splits)

lemma request_headers_authorization:
  "request_headers options w (ascii ''Authorization'') =
     (case getToken w of
        Some (c # cs) \<Rightarrow> Some (ascii ''Bearer '' @ c # cs)
      | _ \<Rightarrow> caller_header options (ascii ''Authorization''))"
  by (auto simp add: request_headers_def caller_header_def map_add_def Let_def
        split: option.splits list.splits)

lemma array_includes_iff:
  "array_includes names v = (\<exists>r. v = JStr r \<and> r \<in> set names)"
  by (cases v) (simp_all add: array_includes_def)

text \<open>
  A success reply that carries the object of a session, for any three strings: \<^verbatim>\<open>login\<close>
  returns the object and stores the token and the identity.
\<close>

lemma login_session_reply:
  assumes "response_ok status" and "JSON_stringify (session_reply t u r) = Some blob"
  shows "login (\<lambda>url init. Response status blob) email password w =
           (Inr (session_reply t u r),
            setUserData (identity (JStr u) (JStr r)) (setToken (JStr t) w))"
  by (rule login_success [OF assms(1) JSON_parse_session_reply [OF assms(2)]])
     (simp_all add: session_reply_props)

section \<open>The claims\<close>

subsection \<open>Session expiry\<close>

text \<open>
  Claim C1. When the response to the call that \<^verbatim>\<open>request\<close> makes has status 401,
  whatever its body (a JSON text or not), \<^verbatim>\<open>request\<close> returns \<^verbatim>\<open>null\<close> and throws
  nothing; in the state it leaves, the token and the identity are removed from the store,
  one navigation to \<^verbatim>\<open>/login.html\<close> has been added, and nothing has been logged. The
  body does not occur in the result: it is not parsed.
\<close>

theorem request_unauthorized:
  assumes "net (fetch_url endpoint) (fetch_init options w) = Response 401 blob"
  shows "request net endpoint options w
           = (Inr JNull, navigate (ascii ''/login.html'') (clearAll w)) \<and>
         getToken (navigate (ascii ''/login.html'') (clearAll w)) = None \<and>
         getItem (ascii ''bossup_user'') (navigate (ascii ''/login.html'') (clearAll w)) = None \<and>
         navigations (navigate (ascii ''/login.html'') (clearAll w))
           = navigations w @ [ascii ''/login.html''] \<and>
         console_errors (navigate (ascii ''/login.html'') (clearAll w)) = console_errors w"
  using assms
  by (simp add: request_def navigate_def getToken_def getItem_def localStorage_clearAll)
     (simp add: clearAll_def removeItem_def)

text \<open>
  At a signed-in investor whose request is answered 401 with an HTML page (a body that is
  no JSON text): the call returns \<^verbatim>\<open>null\<close>, the token is gone, the browser is sent to
  the login page.
\<close>

theorem request_unauthorized_witness:
  "request (\<lambda>url init. Response 401 (ascii ''<html>Unauthorized</html>''))
       (ascii ''/campaigns/my'') no_options signed_in
     = (Inr JNull, navigate (ascii ''/login.html'') (clearAll signed_in)) \<and>
   getToken signed_in = Some (ascii ''tok'') \<and>
   getToken (navigate (ascii ''/login.html'') (clearAll signed_in)) = None \<and>
   getItem (ascii ''bossup_user'') (navigate (ascii ''/login.html'') (clearAll signed_in))
     = None \<and>
   navigations (navigate (ascii ''/login.html'') (clearAll signed_in))
     = [ascii ''/login.html''] \<and>
   JSON_parse (ascii ''<html>Unauthorized</html>'') = None"
  using request_unauthorized
      [of "\<lambda>url init. Response 401 (ascii ''<html>Unauthorized</html>'')"
        "ascii ''/campaigns/my''" no_options signed_in "ascii ''<html>Unauthorized</html>''"]
    signed_in_facts JSON_parse_html
  by simp

subsection \<open>The guard\<close>

text \<open>
  Claim C2, as the code has it. \<^verbatim>\<open>requireAuth\<close> reads the cached identity with
  \<^verbatim>\<open>getUserData\<close> as soon as the store is authenticated, so it has the three outcomes
  of the claim where that read returns, and a fourth where it does not:
  \<^item> not authenticated: it returns false and navigates to \<^verbatim>\<open>/login.html\<close>, whatever
    is cached;
  \<^item> authenticated, the identity read, roles given and the cached role not among them: it
    returns false and navigates to the dashboard of the cached role
    (\<^verbatim>\<open>INVESTOR\<close>, \<^verbatim>\<open>BUSINESS_OWNER\<close>, \<^verbatim>\<open>ADMIN\<close>; the home page for any other or no role);
  \<^item> authenticated, the identity read, and no roles given or the cached role among them:
    it returns true and the state is unchanged;
  \<^item> authenticated and the read throws: it throws the same error, with roles given or
    not, and the state is unchanged. This is so whenever a non-empty text that is no JSON
    text is stored under the identity's key; the error is then \<^verbatim>\<open>SyntaxError\<close>.
\<close>

theorem requireAuth_decision:
  "(\<not> isAuthenticated w \<longrightarrow>
      requireAuth allowedRoles w = (Inr False, navigate (ascii ''/login.html'') w)) \<and>
   (isAuthenticated w \<and> getUserData w = Inr userData \<and> allowedRoles = Some names \<and>
      \<not> (\<exists>r. opt_prop userData (ascii ''role'') = JStr r \<and> r \<in> set names) \<longrightarrow>
      requireAuth allowedRoles w =
        (Inr False,
         navigate
           (if opt_prop userData (ascii ''role'') = JStr (ascii ''INVESTOR'')
              then ascii ''/investor-dashboard.html''
            else if opt_prop userData (ascii ''role'') = JStr (ascii ''BUSINESS_OWNER'')
              then ascii ''/business-dashboard.html''
            else if opt_prop userData (ascii ''role'') = JStr (ascii ''ADMIN'')
              then ascii ''/admin.html''
            else ascii ''/index.html'') w)) \<and>
   (isAuthenticated w \<and> getUserData w = Inr userData \<and>
      (allowedRoles = None \<or>
       allowedRoles = Some names \<and>
         (\<exists>r. opt_prop userData (ascii ''role'') = JStr r \<and> r \<in> set names)) \<longrightarrow>
      requireAuth allowedRoles w = (Inr True, w)) \<and>
   (isAuthenticated w \<and> getUserData w = Inl e \<longrightarrow>
      requireAuth allowedRoles w = (Inl e, w)) \<and>
   (isAuthenticated w \<and> getItem (ascii ''bossup_user'') w = Some (c # cs) \<and>
      JSON_parse (c # cs) = None \<longrightarrow>
      requireAuth allowedRoles w = (Inl SyntaxError, w))"
  by (auto simp add: requireAuth_def array_includes_iff redirectToDashboard_def dashboard_url_def
      getUserData_def)

text \<open>
  The cases of the specification: \<^verbatim>\<open>requireAuth(['ADMIN'])\<close> with no session, with an
  investor's session and with an administrator's; an administrator on an investor's page;
  a token with no identity cached; no restriction on roles; and a token beside an identity
  text that was cut off, with roles given and without.
\<close>

theorem requireAuth_decision_witness:
  "requireAuth (Some [ascii ''ADMIN'']) fresh_world
     = (Inr False, navigate (ascii ''/login.html'') fresh_world) \<and>
   requireAuth (Some [ascii ''ADMIN'']) signed_in
     = (Inr False, navigate (ascii ''/investor-dashboard.html'') signed_in) \<and>
   requireAuth (Some [ascii ''ADMIN'']) admin_session = (Inr True, admin_session) \<and>
   requireAuth (Some [ascii ''INVESTOR'']) admin_session
     = (Inr False, navigate (ascii ''/admin.html'') admin_session) \<and>
   requireAuth (Some [ascii ''ADMIN'']) token_only
     = (Inr False, navigate (ascii ''/index.html'') token_only) \<and>
   requireAuth None signed_in = (Inr True, signed_in) \<and>
   requireAuth None truncated_session = (Inl SyntaxError, truncated_session) \<and>
   requireAuth (Some [ascii ''INVESTOR'']) truncated_session
     = (Inl SyntaxError, truncated_session)"
proof -
  have a: "requireAuth (Some [ascii ''ADMIN'']) fresh_world
     = (Inr False, navigate (ascii ''/login.html'') fresh_world)"
    using requireAuth_decision
        [where w = fresh_world and allowedRoles = "Some [ascii ''ADMIN'']"]
      fresh_world_unauthenticated
    by simp
  have b: "requireAuth (Some [ascii ''ADMIN'']) signed_in
     = (Inr False, navigate (ascii ''/investor-dashboard.html'') signed_in)"
    using requireAuth_decision
        [where w = signed_in and allowedRoles = "Some [ascii ''ADMIN'']"
          and names = "[ascii ''ADMIN'']"
          and userData = "identity (JStr (ascii ''u1'')) (JStr (ascii ''INVESTOR''))"]
      signed_in_facts
    by (simp add: identity_def)
  have c: "requireAuth (Some [ascii ''ADMIN'']) admin_session = (Inr True, admin_session)"
    using requireAuth_decision
        [where w = admin_session and allowedRoles = "Some [ascii ''ADMIN'']"
          and names = "[ascii ''ADMIN'']"
          and userData = "identity (JStr (ascii ''u9'')) (JStr (ascii ''ADMIN''))"]
      admin_session_facts
    by (simp add: identity_def)
  have d: "requireAuth (Some [ascii ''INVESTOR'']) admin_session
     = (Inr False, navigate (ascii ''/admin.html'') admin_session)"
    using requireAuth_decision
        [where w = admin_session and allowedRoles = "Some [ascii ''INVESTOR'']"
          and names = "[ascii ''INVESTOR'']"
          and userData = "identity (JStr (ascii ''u9'')) (JStr (ascii ''ADMIN''))"]
      admin_session_facts
    by (simp add: identity_def)
  have e: "requireAuth (Some [ascii ''ADMIN'']) token_only
     = (Inr False, navigate (ascii ''/index.html'') token_only)"
    using requireAuth_decision
        [where w = token_only and allowedRoles = "Some [ascii ''ADMIN'']"
          and names = "[ascii ''ADMIN'']" and userData = JNull]
      token_only_facts
    by simp
  have f: "requireAuth None signed_in = (Inr True, signed_in)"
    using requireAuth_decision
        [where w = signed_in and allowedRoles = None
          and userData = "identity (JStr (ascii ''u1'')) (JStr (ascii ''INVESTOR''))"]
      signed_in_facts
    by simp
  have g: "requireAuth None truncated_session = (Inl SyntaxError, truncated_session)"
    using requireAuth_decision
        [where w = truncated_session and allowedRoles = None and e = SyntaxError]
      truncated_session_facts
    by simp
  have h: "requireAuth (Some [ascii ''INVESTOR'']) truncated_session
     = (Inl SyntaxError, truncated_session)"
    using requireAuth_decision
        [where w = truncated_session and allowedRoles = "Some [ascii ''INVESTOR'']"
          and e = SyntaxError]
      truncated_session_facts
    by simp
  from a b c d e f g h show ?thesis by simp
qed

text \<open>
  Where the read does not return, neither does the guard. With a token stored beside the
  text \<^verbatim>\<open>undefined\<close> (what \<^verbatim>\<open>setUserData(undefined)\<close> stores), \<^verbatim>\<open>requireAuth\<close> throws
  the \<^verbatim>\<open>SyntaxError\<close> of \<^verbatim>\<open>JSON.parse\<close>, with roles given or not: it returns neither
  true nor false and makes no navigation.
\<close>

theorem requireAuth_throws:
  "isAuthenticated broken_session \<and>
   getItem (ascii ''bossup_user'') broken_session = Some (ascii ''undefined'') \<and>
   requireAuth None broken_session = (Inl SyntaxError, broken_session) \<and>
   requireAuth (Some [ascii ''ADMIN'']) broken_session = (Inl SyntaxError, broken_session)"
  using broken_session_facts by (simp add: requireAuth_def)

subsection \<open>Login and signup\<close>

text \<open>
  Claim C3, as the code has it. Let the server answer \<^verbatim>\<open>login\<close> or \<^verbatim>\<open>signup\<close> with a
  success status and a JSON object whose \<^verbatim>\<open>access_token\<close> is a non-empty string \<open>T\<close>
  and whose \<^verbatim>\<open>user_id\<close> and \<^verbatim>\<open>role\<close> are strings \<open>U\<close> and \<open>R\<close>. Then the call returns
  that object, and afterwards \<^verbatim>\<open>isAuthenticated()\<close> is true, \<^verbatim>\<open>getToken()\<close> returns
  \<open>T\<close> and \<^verbatim>\<open>getUserData()\<close> returns the object \<^verbatim>\<open>{user_id: U, role: R}\<close> (the id is
  kept under the key \<^verbatim>\<open>user_id\<close>).
\<close>

theorem session_persisted:
  assumes "response_ok status"
    and "JSON_parse blob = Some resp"
    and "own_prop resp (ascii ''access_token'') = JStr (c # cs)"
    and "own_prop resp (ascii ''user_id'') = JStr u"
    and "own_prop resp (ascii ''role'') = JStr r"
    and "after_login = snd (login (\<lambda>url init. Response status blob) email password w)"
    and "after_signup =
           snd (signup (\<lambda>url init. Response status blob) email password role country fullName w)"
  shows "fst (login (\<lambda>url init. Response status blob) email password w) = Inr resp \<and>
         isAuthenticated after_login \<and>
         getToken after_login = Some (c # cs) \<and>
         getUserData after_login = Inr (identity (JStr u) (JStr r)) \<and>
         fst (signup (\<lambda>url init. Response status blob) email password role country fullName w)
           = Inr resp \<and>
         isAuthenticated after_signup \<and>
         getToken after_signup = Some (c # cs) \<and>
         getUserData after_signup = Inr (identity (JStr u) (JStr r))"
  unfolding assms(6,7) login_success [OF assms(1-5)] signup_success [OF assms(1-5)]
  by (simp add: session_after_persist isAuthenticated_def)

text \<open>
  At a reply as the backend sends it, for a login and for a signup from a fresh browser;
  and at a reply whose \<^verbatim>\<open>user_id\<close> is the character U+0100, written as an escape.
\<close>

theorem session_persisted_witness:
  "response_ok 200 \<and>
   isAuthenticated fresh_world = False \<and>
   isAuthenticated
     (snd (login (\<lambda>url init. Response 200 login_reply) (ascii ''a@b.io'') (ascii ''pw'')
             fresh_world)) \<and>
   getToken
     (snd (login (\<lambda>url init. Response 200 login_reply) (ascii ''a@b.io'') (ascii ''pw'')
             fresh_world))
     = Some (ascii ''eyJ.abc'') \<and>
   getUserData
     (snd (login (\<lambda>url init. Response 200 login_reply) (ascii ''a@b.io'') (ascii ''pw'')
             fresh_world))
     = Inr (identity (JStr (ascii ''u1'')) (JStr (ascii ''INVESTOR''))) \<and>
   isAuthenticated
     (snd (signup (\<lambda>url init. Response 200 login_reply) (ascii ''a@b.io'') (ascii ''pw'')
             (ascii ''INVESTOR'') (ascii ''KE'') JNull fresh_world)) \<and>
   isAuthenticated
     (snd (login (\<lambda>url init. Response 200 wide_login_reply) (ascii ''a@b.io'') (ascii ''pw'')
             fresh_world)) \<and>
   getUserData
     (snd (login (\<lambda>url init. Response 200 wide_login_reply) (ascii ''a@b.io'') (ascii ''pw'')
             fresh_world))
     = Inr (identity (JStr [256]) (JStr (ascii ''INVESTOR'')))"
proof -
  have ok: "response_ok 200" by (simp add: response_ok_def)
  have a: "ascii ''eyJ.abc'' = U CHR ''e'' # ascii ''yJ.abc''"
    and b: "ascii ''tok'' = U CHR ''t'' # ascii ''ok''"
    by (simp_all add: ascii_def)
  show ?thesis
    using session_persisted
        [OF ok parse_login_reply, where c = "U CHR ''e''" and cs = "ascii ''yJ.abc''"
          and u = "ascii ''u1''" and r = "ascii ''INVESTOR''" and email = "ascii ''a@b.io''"
          and password = "ascii ''pw''" and w = fresh_world and role = "ascii ''INVESTOR''"
          and country = "ascii ''KE''" and fullName = JNull, OF _ _ _ refl refl]
      session_persisted
        [OF ok parse_wide_login_reply, where c = "U CHR ''t''" and cs = "ascii ''ok''"
          and u = "[256]" and r = "ascii ''INVESTOR''" and email = "ascii ''a@b.io''"
          and password = "ascii ''pw''" and w = fresh_world and role = "ascii ''INVESTOR''"
          and country = "ascii ''KE''" and fullName = JNull, OF _ _ _ refl refl]
      ok fresh_world_unauthenticated
    by (simp add: a b)
qed

text \<open>
  The token must be non-empty: a successful login whose reply carries the empty string as
  \<^verbatim>\<open>access_token\<close> returns the reply and stores the token, and \<^verbatim>\<open>isAuthenticated()\<close>
  is false afterwards.
\<close>

theorem empty_token_login:
  "response_ok 200 \<and>
   fst (login (\<lambda>url init. Response 200 empty_token_reply) (ascii ''a@b.io'') (ascii ''pw'')
          fresh_world)
     = Inr (JObj [(ascii ''access_token'', JStr []), (ascii ''user_id'', JStr (ascii ''u1'')),
                  (ascii ''role'', JStr (ascii ''INVESTOR''))]) \<and>
   getToken
     (snd (login (\<lambda>url init. Response 200 empty_token_reply) (ascii ''a@b.io'') (ascii ''pw'')
             fresh_world))
     = Some [] \<and>
   isAuthenticated
     (snd (login (\<lambda>url init. Response 200 empty_token_reply) (ascii ''a@b.io'') (ascii ''pw'')
             fresh_world))
     = False"
proof -
  have ok: "response_ok 200" by (simp add: response_ok_def)
  have "login (\<lambda>url init. Response 200 empty_token_reply) (ascii ''a@b.io'') (ascii ''pw'')
          fresh_world =
        (Inr (JObj [(ascii ''access_token'', JStr []), (ascii ''user_id'', JStr (ascii ''u1'')),
                    (ascii ''role'', JStr (ascii ''INVESTOR''))]),
         setUserData (identity (JStr (ascii ''u1'')) (JStr (ascii ''INVESTOR'')))
           (setToken (JStr []) fresh_world))"
    by (rule login_success [OF ok parse_empty_token_reply]) simp_all
  then show ?thesis
    using ok by (simp add: isAuthenticated_def getToken_setUserData getToken_setToken)
qed

subsection \<open>Failures and results of \<^verbatim>\<open>request\<close>\<close>




subsection \<open>Request headers\<close>

text \<open>
  Claim C5, as the code has it. The options handed to \<^verbatim>\<open>fetch\<close> carry the headers built
  by \<^verbatim>\<open>request\<close>, and the result of \<^verbatim>\<open>request\<close> depends on the network through that
  one call only. In these headers
  \<^item> \<^verbatim>\<open>Content-Type\<close> is \<^verbatim>\<open>application/json\<close> unless the caller's own headers name a
    \<^verbatim>\<open>Content-Type\<close>, which then replaces it;
  \<^item> \<^verbatim>\<open>Authorization\<close> is \<^verbatim>\<open>Bearer\<close> followed by the stored token when a non-empty
    token is stored, whatever the caller passed; otherwise the client adds none and the
    header is the caller's, if any.
\<close>

theorem headers_sent:
  "headers (fetch_init options w) = Some (request_headers options w) \<and>
   request_headers options w (ascii ''Content-Type'') =
     Some (case caller_header options (ascii ''Content-Type'') of
             None \<Rightarrow> ascii ''application/json'' | Some v \<Rightarrow> v) \<and>
   request_headers options w (ascii ''Authorization'') =
     (case getToken w of
        Some (c # cs) \<Rightarrow> Some (ascii ''Bearer '' @ c # cs)
      | _ \<Rightarrow> caller_header options (ascii ''Authorization'')) \<and>
   (net (fetch_url endpoint) (fetch_init options w)
      = net' (fetch_url endpoint) (fetch_init options w) \<longrightarrow>
    request net endpoint options w = request net' endpoint options w)"
  by (simp add: request_headers_content_type request_headers_authorization fetch_init_def
      request_def)

text \<open>
  A signed-in investor's request without options: JSON content type, bearer token; and two
  networks that agree on this one call give the same result.
\<close>

theorem headers_sent_witness:
  "request_headers no_options signed_in (ascii ''Content-Type'')
     = Some (ascii ''application/json'') \<and>
   request_headers no_options signed_in (ascii ''Authorization'') = Some (ascii ''Bearer tok'') \<and>
   request (\<lambda>url init. Response 401 []) (ascii ''/campaigns'') no_options signed_in
     = request (\<lambda>url init. if url = fetch_url (ascii ''/campaigns'') then Response 401 []
                             else Rejected (ascii ''offline''))
         (ascii ''/campaigns'') no_options signed_in"
  using headers_sent [where options = no_options and w = signed_in
      and net = "\<lambda>url init. Response 401 []"
      and net' = "\<lambda>url init. if url = fetch_url (ascii ''/campaigns'') then Response 401 []
                              else Rejected (ascii ''offline'')"
      and endpoint = "ascii ''/campaigns''"]
    signed_in_facts
  by (simp add: caller_header_def no_options_def ascii_def)

text \<open>
  A caller's \<^verbatim>\<open>Content-Type\<close> replaces the JSON one; and with the empty string stored as
  token, no \<^verbatim>\<open>Authorization\<close> header is sent.
\<close>

theorem content_type_overridden:
  "request_headers
     (no_options\<lparr>headers := Some [ascii ''Content-Type'' \<mapsto> ascii ''text/plain'']\<rparr>)
     fresh_world (ascii ''Content-Type'') = Some (ascii ''text/plain'') \<and>
   getToken (setToken (JStr []) fresh_world) = Some [] \<and>
   request_headers no_options (setToken (JStr []) fresh_world) (ascii ''Authorization'') = None"
  by (simp add: request_headers_content_type request_headers_authorization caller_header_def
      no_options_def getToken_setToken)

subsection \<open>The session store\<close>

text \<open>
  Claim C6. Whatever writes \<^verbatim>\<open>setToken\<close> and \<^verbatim>\<open>setUserData\<close> made, in any order and
  with any arguments, from any state of the browser, after one \<^verbatim>\<open>clearAll\<close> the
  store is not authenticated and \<^verbatim>\<open>getUserData\<close> returns \<^verbatim>\<open>null\<close>.
\<close>

theorem writes_then_clear:
  "isAuthenticated (clearAll (run_ops ops w)) = False \<and>
   getUserData (clearAll (run_ops ops w)) = Inr JNull"
  by (simp add: isAuthenticated_def getUserData_def getToken_clearAll user_item_clearAll)

text \<open>
  Claim C7, as the code has it. \<^verbatim>\<open>isAuthenticated()\<close> is true exactly when a non-empty
  token is stored; it is true after storing any non-empty string, whatever its
  characters.
\<close>

theorem isAuthenticated_nonempty_token:
  "isAuthenticated w = (\<exists>c cs. getToken w = Some (c # cs)) \<and>
   isAuthenticated (setToken (JStr (c # cs)) w) = True"
proof -
  have "isAuthenticated w = (\<exists>c cs. getToken w = Some (c # cs))"
  proof (cases "getToken w")
    case None
    then show ?thesis by (simp add: isAuthenticated_def)
  next
    case (Some t)
    then show ?thesis by (cases t) (simp_all add: isAuthenticated_def)
  qed
  moreover have "isAuthenticated (setToken (JStr (c # cs)) w) = True"
    by (simp add: isAuthenticated_def getToken_setToken)
  ultimately show ?thesis by simp
qed

text \<open>
  A token that is present and empty: \<^verbatim>\<open>getToken()\<close> returns it, not \<^verbatim>\<open>null\<close>, and
  \<^verbatim>\<open>isAuthenticated()\<close> is false.
\<close>

theorem empty_token_not_authenticated:
  "getToken (setToken (JStr []) fresh_world) = Some [] \<and>
   isAuthenticated (setToken (JStr []) fresh_world) = False"
  by (simp add: isAuthenticated_def getToken_setToken)

text \<open>
  Claim C8. \<^verbatim>\<open>clearAll\<close> is idempotent: a second call in a row leaves the browser
  state, store included, as the first call left it.
\<close>

theorem clearAll_idempotent: "clearAll (clearAll w) = clearAll w"
  by (simp add: clearAll_def removeItem_def)

text \<open>
  Claim C9. From an empty store, \<^verbatim>\<open>setUserData\<close> of an identity (two strings) without
  any \<^verbatim>\<open>setToken\<close> is accepted: \<^verbatim>\<open>getUserData()\<close> returns that identity, no token is
  stored and \<^verbatim>\<open>isAuthenticated()\<close> is false. No number of further \<^verbatim>\<open>setUserData\<close>
  calls, with any arguments, makes the store authenticated.
\<close>

theorem identity_without_token:
  "getUserData (setUserData (identity (JStr u) (JStr r)) (empty_store w))
     = Inr (identity (JStr u) (JStr r)) \<and>
   getToken (setUserData (identity (JStr u) (JStr r)) (empty_store w)) = None \<and>
   isAuthenticated (setUserData (identity (JStr u) (JStr r)) (empty_store w)) = False \<and>
   isAuthenticated (run_ops (map SetUserData ds) (empty_store w)) = False"
  by (simp add: getUserData_identity isAuthenticated_def getToken_setUserData
      getToken_only_user_writes getToken_empty_store)

text \<open>
  Claim C10, as the code has it. \<^verbatim>\<open>getUserData()\<close> returns \<^verbatim>\<open>null\<close> when nothing is
  stored under the identity's key and also when the empty string is; for a stored
  non-empty JSON text it returns the decoded value (which is \<^verbatim>\<open>null\<close> for the text
  \<^verbatim>\<open>null\<close>); for a stored non-empty text that is no JSON text it throws
  \<^verbatim>\<open>SyntaxError\<close>, and the text \<^verbatim>\<open>undefined\<close>, which \<^verbatim>\<open>setUserData(undefined)\<close>
  stores, is such a text.
\<close>

theorem getUserData_cases:
  "getUserData (removeItem (ascii ''bossup_user'') w) = Inr JNull \<and>
   getUserData (setItem (ascii ''bossup_user'') [] w) = Inr JNull \<and>
   (JSON_parse (c # cs) = Some v \<longrightarrow>
      getUserData (setItem (ascii ''bossup_user'') (c # cs) w) = Inr v) \<and>
   (JSON_parse (c # cs) = None \<longrightarrow>
      getUserData (setItem (ascii ''bossup_user'') (c # cs) w) = Inl SyntaxError) \<and>
   getUserData (setUserData JUndefined w) = Inl SyntaxError"
  by (simp add: getUserData_def user_item_setItem setUserData_def JSON_parse_undefined)
     (simp add: getItem_def removeItem_def)

text \<open>
  At the identity text of an investor, at an identity text that names the character U+0100
  by an escape, and at a text that was cut off.
\<close>

theorem getUserData_cases_witness:
  \<open>getUserData
     (setItem (ascii ''bossup_user'') (ascii ''{"user_id":"u1","role":"INVESTOR"}'') fresh_world)
     = Inr (identity (JStr (ascii ''u1'')) (JStr (ascii ''INVESTOR''))) \<and>
   getUserData (setItem (ascii ''bossup_user'') wide_identity_text fresh_world)
     = Inr (identity (JStr [256]) (JStr (ascii ''ADMIN''))) \<and>
   getUserData (setItem (ascii ''bossup_user'') (ascii ''{"user_id":"u1"'') fresh_world)
     = Inl SyntaxError\<close>
proof -
  have a: \<open>ascii ''{"user_id":"u1","role":"INVESTOR"}''
             = U CHR ''{'' # ascii ''"user_id":"u1","role":"INVESTOR"}''\<close>
    and b: \<open>wide_identity_text
             = U CHR ''{'' # ascii ''"user_id":"'' @ U CHR 0x5C # ascii ''u0100","role":"ADMIN"}''\<close>
    and c: \<open>ascii ''{"user_id":"u1"'' = U CHR ''{'' # ascii ''"user_id":"u1"''\<close>
    by (simp_all add: ascii_def wide_identity_text_def)
  have x: \<open>getUserData
       (setItem (ascii ''bossup_user'') (ascii ''{"user_id":"u1","role":"INVESTOR"}'')
          fresh_world)
     = Inr (identity (JStr (ascii ''u1'')) (JStr (ascii ''INVESTOR'')))\<close>
    using getUserData_cases
        [where c = \<open>U CHR ''{''\<close> and cs = \<open>ascii ''"user_id":"u1","role":"INVESTOR"}''\<close>
          and v = "identity (JStr (ascii ''u1'')) (JStr (ascii ''INVESTOR''))"
          and w = fresh_world]
      JSON_parse_investor
    unfolding a [symmetric] by simp
  have y: "getUserData (setItem (ascii ''bossup_user'') wide_identity_text fresh_world)
     = Inr (identity (JStr [256]) (JStr (ascii ''ADMIN'')))"
    using getUserData_cases
        [where c = \<open>U CHR ''{''\<close>
          and cs = \<open>ascii ''"user_id":"'' @ U CHR 0x5C # ascii ''u0100","role":"ADMIN"}''\<close>
          and v = "identity (JStr [256]) (JStr (ascii ''ADMIN''))" and w = fresh_world]
      parse_wide_identity
    unfolding b [symmetric] by simp
  have z: \<open>getUserData (setItem (ascii ''bossup_user'') (ascii ''{"user_id":"u1"'') fresh_world)
     = Inl SyntaxError\<close>
    using getUserData_cases
        [where c = \<open>U CHR ''{''\<close> and cs = \<open>ascii ''"user_id":"u1"''\<close> and w = fresh_world]
      JSON_parse_truncated
    unfolding c [symmetric] by simp
  from x y z show ?thesis by simp
qed

text \<open>
  Two stores that hold a value under the identity's key and for which \<^verbatim>\<open>getUserData()\<close>
  returns \<^verbatim>\<open>null\<close>: the empty string, and the text \<^verbatim>\<open>null\<close> that
  \<^verbatim>\<open>setUserData(null)\<close> stores.
\<close>

theorem absent_with_value_stored:
  "getItem (ascii ''bossup_user'') (setItem (ascii ''bossup_user'') [] fresh_world) = Some [] \<and>
   getUserData (setItem (ascii ''bossup_user'') [] fresh_world) = Inr JNull \<and>
   getItem (ascii ''bossup_user'') (setUserData JNull fresh_world) = Some (ascii ''null'') \<and>
   getUserData (setUserData JNull fresh_world) = Inr JNull"
  by (simp add: getUserData_def user_item_setItem setUserData_def JSON_parse_null)

end
